theory Spec2Isabelle
  imports Complex_Main "HOL-Library.Word"
begin

section \<open>JavaScript strings and values\<close>

text \<open>
  A JavaScript string is a sequence of UTF-16 code units; \<open>String.prototype.length\<close>
  is the number of code units. An ASCII literal of the source is written \<open>js ''...''\<close>.
\<close>

type_synonym jsstring = "16 word list"

definition js :: "string \<Rightarrow> jsstring" where
  "js s = map of_char s"

text \<open>
  The values that configuration objects and backend responses are made of. Property names
  are the ASCII identifiers of the source. Non-finite numbers, functions and symbols are
  not represented (the values in question are plain option objects and parsed responses).
\<close>

datatype jsval =
    JUndefined
  | JNull
  | JBool bool
  | JNum real
  | JStr jsstring
  | JObj "(string \<times> jsval) list"

datatype jstype = TUndefined | TObject | TBoolean | TNumber | TString

fun typeof :: "jsval \<Rightarrow> jstype" where
  "typeof JUndefined = TUndefined"
| "typeof JNull = TObject"
| "typeof (JBool b) = TBoolean"
| "typeof (JNum x) = TNumber"
| "typeof (JStr s) = TString"
| "typeof (JObj ps) = TObject"

text \<open>Truthiness, as tested by \<open>if (v)\<close>, \<open>v && ...\<close> and \<open>Boolean(v)\<close>.\<close>

fun truthy :: "jsval \<Rightarrow> bool" where
  "truthy JUndefined = False"
| "truthy JNull = False"
| "truthy (JBool b) = b"
| "truthy (JNum x) = (x \<noteq> 0)"
| "truthy (JStr s) = (s \<noteq> [])"
| "truthy (JObj ps) = True"

text \<open>
  Property read \<open>v?.k\<close>. Every plain read \<open>v.k\<close> of the source is guarded by a
  truthiness or \<open>typeof\<close> test of \<open>v\<close>, so it never throws and is read the same way.
  None of the names that the source reads is an inherited property or a property of a
  primitive, so a missing name gives \<open>undefined\<close>.
\<close>

fun getProp :: "jsval \<Rightarrow> string \<Rightarrow> jsval" where
  "getProp (JObj ps) k = (case map_of ps k of Some v \<Rightarrow> v | None \<Rightarrow> JUndefined)"
| "getProp v k = JUndefined"

text \<open>
  White space as removed by \<open>String.prototype.trim\<close> and matched by \<^verbatim>\<open>\s\<close>: the
  WhiteSpace and LineTerminator code points of ECMAScript.
\<close>

definition isWhiteSpace :: "16 word \<Rightarrow> bool" where
  "isWhiteSpace c \<longleftrightarrow>
     c \<in> {0x0009, 0x000A, 0x000B, 0x000C, 0x000D, 0x0020, 0x00A0, 0x1680,
          0x2028, 0x2029, 0x202F, 0x205F, 0x3000, 0xFEFF}
     \<or> (0x2000 \<le> c \<and> c \<le> 0x200A)"

definition trim :: "jsstring \<Rightarrow> jsstring" where
  "trim s = rev (dropWhile isWhiteSpace (rev (dropWhile isWhiteSpace s)))"

definition isDigit :: "16 word \<Rightarrow> bool" where
  "isDigit c \<longleftrightarrow> 0x30 \<le> c \<and> c \<le> 0x39"

text \<open>
  Case folding of a regular expression with the \<open>i\<close> flag and without the \<open>u\<close> flag:
  two code units match when their canonical forms agree, and a code unit outside ASCII
  never canonicalises to an ASCII one. For the ASCII patterns of the source this is
  equality after mapping \<open>a\<close>..\<open>z\<close> to \<open>A\<close>..\<open>Z\<close>.
\<close>

definition canonicalize :: "16 word \<Rightarrow> 16 word" where
  "canonicalize c = (if 0x61 \<le> c \<and> c \<le> 0x7A then c - 0x20 else c)"

subsection \<open>Regular expressions\<close>

text \<open>
  The regular expressions of the source use character classes, sequencing and
  repetition only, and are used through \<open>RegExp.prototype.test\<close>, which answers whether
  a match exists. They are modelled by their syntax and matched by derivatives.
\<close>

datatype pat =
    Never
  | Empty
  | Class "16 word \<Rightarrow> bool"
  | Cat pat pat
  | Alt pat pat
  | Rep pat

fun nullable :: "pat \<Rightarrow> bool" where
  "nullable Never = False"
| "nullable Empty = True"
| "nullable (Class f) = False"
| "nullable (Cat p q) = (nullable p \<and> nullable q)"
| "nullable (Alt p q) = (nullable p \<or> nullable q)"
| "nullable (Rep p) = True"

fun deriv :: "16 word \<Rightarrow> pat \<Rightarrow> pat" where
  "deriv c Never = Never"
| "deriv c Empty = Never"
| "deriv c (Class f) = (if f c then Empty else Never)"
| "deriv c (Cat p q) =
     (if nullable p then Alt (Cat (deriv c p) q) (deriv c q) else Cat (deriv c p) q)"
| "deriv c (Alt p q) = Alt (deriv c p) (deriv c q)"
| "deriv c (Rep p) = Cat (deriv c p) (Rep p)"

fun derivs :: "pat \<Rightarrow> jsstring \<Rightarrow> pat" where
  "derivs p [] = p"
| "derivs p (c # cs) = derivs (deriv c p) cs"

text \<open>\<open>/^p$/.test(s)\<close>: the whole of \<open>s\<close> matches \<open>p\<close>.\<close>

definition testAnchored :: "pat \<Rightarrow> jsstring \<Rightarrow> bool" where
  "testAnchored p s = nullable (derivs p s)"

text \<open>\<open>/p/.test(s)\<close>: some substring of \<open>s\<close> matches \<open>p\<close>.\<close>

definition testAnywhere :: "pat \<Rightarrow> jsstring \<Rightarrow> bool" where
  "testAnywhere p s =
     testAnchored (Cat (Rep (Class (\<lambda>c. True))) (Cat p (Rep (Class (\<lambda>c. True))))) s"

definition oneOrMore :: "pat \<Rightarrow> pat" where
  "oneOrMore p = Cat p (Rep p)"

fun times :: "nat \<Rightarrow> pat \<Rightarrow> pat" where
  "times 0 p = Empty"
| "times (Suc n) p = Cat p (times n p)"

text \<open>An ASCII literal under the \<open>i\<close> flag.\<close>

fun literal_i :: "jsstring \<Rightarrow> pat" where
  "literal_i [] = Empty"
| "literal_i (c # cs) = Cat (Class (\<lambda>x. canonicalize x = canonicalize c)) (literal_i cs)"

section \<open>Validators (AuthScreen.logic.js)\<close>

text \<open>
  The field values are the strings that the setters store, so \<open>String(x ?? '')\<close> is the
  value itself.
\<close>

definition normalizeEmail :: "jsstring \<Rightarrow> jsstring" where
  "normalizeEmail email = trim email"

text \<open>The pattern \<^verbatim>\<open>/^[^\s@]+@[^\s@]+\.[^\s@]+$/\<close>.\<close>

definition emailPattern :: pat where
  "emailPattern =
     (let part = oneOrMore (Class (\<lambda>c. \<not> isWhiteSpace c \<and> c \<noteq> 0x40))
      in Cat part (Cat (Class (\<lambda>c. c = 0x40)) (Cat part (Cat (Class (\<lambda>c. c = 0x2E)) part))))"

definition validateEmailV2 :: "jsstring \<Rightarrow> bool" where
  "validateEmailV2 email = testAnchored emailPattern (normalizeEmail email)"

definition validatePasswordV1 :: "jsstring \<Rightarrow> bool" where
  "validatePasswordV1 password = (length password \<ge> 8)"

text \<open>The pattern \<^verbatim>\<open>/^\d{6}$/\<close>, tested on the trimmed code.\<close>

definition validateOtpCodeV1 :: "jsstring \<Rightarrow> bool" where
  "validateOtpCodeV1 code = (let raw = trim code in testAnchored (times 6 (Class isDigit)) raw)"

text \<open>
  What a \<open>catch\<close> clause receives: an instance of \<open>Error\<close> with its message, a nullish
  value, or another value, given by its string conversion \<open>String(err)\<close>.
\<close>

datatype thrown = ErrorInstance jsstring | ThrownNullish | ThrownOther jsstring

definition explainOtpVerifyError :: "thrown \<Rightarrow> jsstring" where
  "explainOtpVerifyError err =
     (let message = (case err of
                       ErrorInstance m \<Rightarrow> m
                     | ThrownNullish \<Rightarrow> js ''Something went wrong.''
                     | ThrownOther s \<Rightarrow> s)
      in if testAnywhere (literal_i (js ''otp'')) message
            \<or> testAnywhere (literal_i (js ''token'')) message
            \<or> testAnywhere (literal_i (js ''invalid'')) message
            \<or> testAnywhere (literal_i (js ''expired'')) message
         then js ''Wrong code''
         else message)"

section \<open>Mode resolver\<close>

datatype auth_mode = ModePassword | ModeOtp

text \<open>\<open>options?.email && typeof options.email === 'object' ? options.email : {}\<close>\<close>

definition emailOptions :: "jsval \<Rightarrow> jsval" where
  "emailOptions options =
     (let e = getProp options ''email''
      in if truthy e \<and> typeof e = TObject then e else JObj [])"

definition resolveEmailAuthMode :: "jsval \<Rightarrow> auth_mode" where
  "resolveEmailAuthMode options =
     (let email = emailOptions options;
          otpEnabled = (getProp email ''otp'' \<noteq> JBool False);
          passwordEnabled = (getProp email ''password'' = JBool True)
      in if passwordEnabled \<and> \<not> otpEnabled then ModePassword
         else if \<not> passwordEnabled \<and> otpEnabled then ModeOtp
         else if passwordEnabled \<and> otpEnabled then
           (if getProp email ''default'' = JStr (js ''otp'') then ModeOtp else ModePassword)
         else ModeOtp)"

section \<open>Providers (auth.providers.js)\<close>

definition extractSupabaseErrorMessage :: "jsval \<Rightarrow> jsstring" where
  "extractSupabaseErrorMessage error =
     (if \<not> truthy error then js ''Unknown error''
      else case error of
             JStr s \<Rightarrow> s
           | _ \<Rightarrow> (case getProp error ''message'' of
                     JStr m \<Rightarrow> m
                   | _ \<Rightarrow> js ''Unknown error''))"

text \<open>\<open>typeof v === 'string' ? v : null\<close>\<close>

definition stringOrNull :: "jsval \<Rightarrow> jsstring option" where
  "stringOrNull v = (case v of JStr s \<Rightarrow> Some s | _ \<Rightarrow> None)"

text \<open>\<open>Array.prototype.join\<close> on an array of strings.\<close>

fun join :: "jsstring \<Rightarrow> jsstring list \<Rightarrow> jsstring" where
  "join sep [] = []"
| "join sep [x] = x"
| "join sep (x # y # ys) = x @ sep @ join sep (y # ys)"

text \<open>
  The message built from the JSON body of the Edge Function, when the body is an object
  with a non-empty string \<open>error\<close>; \<open>None\<close> when the function falls through to the
  status tests.
\<close>

definition serverDiagnostics :: "jsval \<Rightarrow> jsstring option" where
  "serverDiagnostics data =
     (if truthy data \<and> typeof data = TObject then
        (let serverError = stringOrNull (getProp data ''error'');
             hint = stringOrNull (getProp data ''hint'');
             role = stringOrNull (getProp data ''role'');
             c = getProp data ''config'';
             config = (if truthy c \<and> typeof c = TObject then c else JNull);
             missing =
               (if truthy config then
                  (if getProp config ''hasSB_URL'' = JBool False then [js ''SB_URL''] else [])
                  @ (if getProp config ''hasSB_SERVICE_ROLE_KEY'' = JBool False
                     then [js ''SB_SERVICE_ROLE_KEY''] else [])
                  @ (if getProp config ''hasSUPABASE_URL'' = JBool False
                     then [js ''SUPABASE_URL''] else [])
                  @ (if getProp config ''hasSUPABASE_SERVICE_ROLE_KEY'' = JBool False
                     then [js ''SUPABASE_SERVICE_ROLE_KEY''] else [])
                else [])
         in case serverError of
              None \<Rightarrow> None
            | Some e \<Rightarrow>
                if e = [] then None
                else Some (e
                  @ (case role of
                       None \<Rightarrow> []
                     | Some r \<Rightarrow> if r = [] then [] else js '' (role: '' @ r @ js '')'')
                  @ (if missing = [] then []
                     else js '' (missing: '' @ join (js '', '') missing @ js '')'')
                  @ (case hint of
                       None \<Rightarrow> []
                     | Some h \<Rightarrow> if h = [] then [] else js '' ('' @ h @ js '')'')))
      else None)"

definition explainEdgeFunctionError :: "jsval \<Rightarrow> jsval \<Rightarrow> jsstring" where
  "explainEdgeFunctionError error data =
     (let status = getProp (getProp error ''context'') ''status''
      in case serverDiagnostics data of
           Some msg \<Rightarrow> msg
         | None \<Rightarrow>
             if status = JNum 404 then
               js ''Email check service not found. Deploy the Edge Function: is-email-registered.''
             else if status = JNum 401 \<or> status = JNum 403 then
               js ''Email check not authorized. Ensure your anon key is correct and the function is deployed.''
             else if (case status of JNum x \<Rightarrow> x \<ge> 500 | _ \<Rightarrow> False) then
               js ''Email check server error. Ensure Edge Function secrets are set (recommended): SB_URL and SB_SERVICE_ROLE_KEY.''
             else
               (let message = extractSupabaseErrorMessage error
                in if message = js ''Failed to send a request to the Edge Function''
                      \<or> message = js ''Network request failed''
                      \<or> testAnywhere (literal_i (js ''Failed to send a request'')) message
                   then join (js '' '')
                     [js ''Cannot reach the Edge Function.'',
                      js ''Check:'',
                      js ''- EXPO_PUBLIC_SUPABASE_URL is exactly `https://<project-ref>.supabase.co` (no spaces, no quotes).'',
                      js ''- Restart Expo with `npx expo start -c` after changing env vars.'',
                      js ''- Device/simulator has internet access.'']
                   else message))"

text \<open>
  The object \<open>{ data, error }\<close> that a call of the Supabase client resolves with, and
  the way a promise settles.
\<close>

record response =
  data :: jsval
  error :: jsval

datatype 'a settled = Resolved 'a | Rejected thrown

text \<open>
  \<open>emailPassword.checkEmailExists\<close>, as a function of the way
  \<open>supabase.functions.invoke('is-email-registered', ...)\<close> settles. A rejection of the
  awaited call propagates.
\<close>

definition checkEmailExists :: "response settled \<Rightarrow> bool settled" where
  "checkEmailExists invoked =
     (case invoked of
        Rejected e \<Rightarrow> Rejected e
      | Resolved r \<Rightarrow>
          if truthy (error r) then
            Rejected (ErrorInstance (explainEdgeFunctionError (error r) (data r)))
          else
            (case getProp (data r) ''exists'' of
               JBool b \<Rightarrow> Resolved b
             | _ \<Rightarrow> Rejected (ErrorInstance (js ''Email check failed (invalid response).''))))"

text \<open>
  The common body of \<open>signIn\<close>, \<open>signUp\<close>, \<open>requestOtp\<close>, \<open>verifyOtp\<close> and
  \<open>updateProfile\<close>: throw \<open>new Error(extractSupabaseErrorMessage(error))\<close> when
  \<open>error\<close> is truthy, return \<open>data\<close> otherwise.
\<close>

definition authCall :: "response settled \<Rightarrow> jsval settled" where
  "authCall called =
     (case called of
        Rejected e \<Rightarrow> Rejected e
      | Resolved r \<Rightarrow>
          if truthy (error r) then Rejected (ErrorInstance (extractSupabaseErrorMessage (error r)))
          else Resolved (data r))"

section \<open>Flow controller (AuthScreen.logic.js)\<close>

subsection \<open>State of the hook\<close>

datatype auth_step = START | EMAIL | OTP | NAME | PASSWORD

datatype check_status = Idle | Checking | Ready

text \<open>The \<open>useState\<close> cells of \<open>useAuthScreenLogic\<close>; \<open>null\<close> is \<open>None\<close>.\<close>

record hook_state =
  step :: auth_step
  name :: jsstring
  email :: jsstring
  password :: jsstring
  otpCode :: jsstring
  busy :: bool
  errorMessage :: jsstring
  emailCheckStatus :: check_status
  emailExists :: "bool option"
  otpResendSeconds :: nat

text \<open>The parameters of the hook that the model reads.\<close>

record props =
  startAt :: jsval
  options :: jsval

text \<open>
  What the model takes from the JavaScript engine: \<open>String.prototype.toLowerCase\<close>
  (the Unicode case mapping), and the message of the \<open>ReferenceError\<close> that the engine
  raises for the identifier \<open>setOtpNeedsName\<close>, which the module never declares.
\<close>

record runtime =
  toLowerCase :: "jsstring \<Rightarrow> jsstring"
  undeclaredMessage :: jsstring

definition emailAuthMode :: "props \<Rightarrow> auth_mode" where
  "emailAuthMode p = resolveEmailAuthMode (options p)"

definition initialStep :: "props \<Rightarrow> auth_step" where
  "initialStep p = (if startAt p = JStr (js ''email'') then EMAIL else START)"

definition initialState :: "props \<Rightarrow> hook_state" where
  "initialState p =
     \<lparr>step = initialStep p, name = [], email = [], password = [], otpCode = [],
      busy = False, errorMessage = [], emailCheckStatus = Idle, emailExists = None,
      otpResendSeconds = 0\<rparr>"

definition isNewUser :: "hook_state \<Rightarrow> bool" where
  "isNewUser s = (emailExists s = Some False)"

definition isExistingUser :: "hook_state \<Rightarrow> bool" where
  "isExistingUser s = (emailExists s = Some True)"

definition shouldCollectName :: "auth_mode \<Rightarrow> hook_state \<Rightarrow> bool" where
  "shouldCollectName mode s = (if mode = ModePassword then isNewUser s else False)"

definition emailIsValid :: "hook_state \<Rightarrow> bool" where
  "emailIsValid s = validateEmailV2 (email s)"

definition passwordIsValid :: "hook_state \<Rightarrow> bool" where
  "passwordIsValid s = validatePasswordV1 (password s)"

definition nameIsValid :: "hook_state \<Rightarrow> bool" where
  "nameIsValid s = (length (trim (name s)) > 0)"

definition otpIsValid :: "hook_state \<Rightarrow> bool" where
  "otpIsValid s = validateOtpCodeV1 (otpCode s)"

definition canContinue :: "auth_mode \<Rightarrow> hook_state \<Rightarrow> bool" where
  "canContinue mode s =
     (if busy s then False
      else if step s = START then True
      else if step s = EMAIL then
        (if mode = ModeOtp then emailIsValid s
         else emailIsValid s \<and> emailCheckStatus s = Ready)
      else if step s = OTP then otpIsValid s
      else if step s = NAME then nameIsValid s
      else if step s = PASSWORD then passwordIsValid s
      else False)"

subsection \<open>Actions\<close>

text \<open>
  A call into the provider layer, and the code that runs when the awaited call settles
  (the rest of the \<open>try\<close>/\<open>catch\<close>/\<open>finally\<close> of the action that made it).
\<close>

datatype provider_call =
    CheckEmailExists jsstring
  | RequestOtp jsstring
  | VerifyOtp jsstring jsstring
  | UpdateProfile jsstring
  | SignUp jsstring jsstring jsstring
  | SignIn jsstring jsstring

datatype continuation =
    AfterRequestOtp
  | AfterResendOtp
  | AfterVerifyOtp
  | AfterUpdateProfile
  | AfterSubmit

text \<open>
  An action runs synchronously up to its first \<open>await\<close>: it gives the state after its
  setters and, when it reaches the \<open>await\<close>, the call it makes with its continuation.
\<close>

type_synonym action_result = "hook_state \<times> (provider_call \<times> continuation) option"

definition start :: "hook_state \<Rightarrow> hook_state" where
  "start s = s\<lparr>errorMessage := [], step := EMAIL\<rparr>"

definition reset :: "props \<Rightarrow> hook_state \<Rightarrow> hook_state" where
  "reset p s =
     s\<lparr>errorMessage := [], name := [], email := [], password := [], otpCode := [],
       otpResendSeconds := 0, emailExists := None, emailCheckStatus := Idle,
       step := initialStep p\<rparr>"

definition goBack :: "props \<Rightarrow> hook_state \<Rightarrow> hook_state" where
  "goBack p s =
     (let s1 = s\<lparr>errorMessage := []\<rparr>
      in if step s = PASSWORD then
           s1\<lparr>password := [], step := (if isNewUser s then NAME else EMAIL)\<rparr>
         else if step s = NAME then
           s1\<lparr>name := [], step := (if emailAuthMode p = ModeOtp then OTP else EMAIL)\<rparr>
         else if step s = OTP then
           s1\<lparr>otpCode := [], otpResendSeconds := 0, step := EMAIL\<rparr>
         else if step s = EMAIL then
           s1\<lparr>email := [], emailExists := None, emailCheckStatus := Idle,
              step := initialStep p\<rparr>
         else s1)"

definition beginEditEmail :: "hook_state \<Rightarrow> hook_state" where
  "beginEditEmail s =
     s\<lparr>errorMessage := [], password := [], otpCode := [], otpResendSeconds := 0,
       emailExists := None, emailCheckStatus := Idle, step := EMAIL\<rparr>"

definition resendOtp :: "runtime \<Rightarrow> props \<Rightarrow> hook_state \<Rightarrow> action_result" where
  "resendOtp rt p s =
     (if busy s then (s, None)
      else if emailAuthMode p \<noteq> ModeOtp then (s, None)
      else if step s \<noteq> OTP then (s, None)
      else if otpResendSeconds s > 0 then (s, None)
      else
        (let normalizedEmail = toLowerCase rt (normalizeEmail (email s))
         in (s\<lparr>errorMessage := [], busy := True\<rparr>,
             Some (RequestOtp normalizedEmail, AfterResendOtp))))"

definition submit :: "runtime \<Rightarrow> hook_state \<Rightarrow> action_result" where
  "submit rt s =
     (if busy s then (s, None)
      else if \<not> passwordIsValid s then
        (s\<lparr>errorMessage :=
             js ''Atleast 8 digit, for your security'' @ [0x2019] @ js ''s sake ''
             @ [0xD83E, 0xDD17]\<rparr>, None)
      else
        (let normalizedEmail = toLowerCase rt (normalizeEmail (email s));
             trimmedName = trim (name s)
         in (s\<lparr>errorMessage := [], busy := True\<rparr>,
             Some (if isNewUser s then SignUp trimmedName normalizedEmail (password s)
                   else SignIn normalizedEmail (password s),
                   AfterSubmit))))"

definition goNext :: "runtime \<Rightarrow> props \<Rightarrow> hook_state \<Rightarrow> action_result" where
  "goNext rt p s =
     (if busy s then (s, None)
      else
        (let s1 = s\<lparr>errorMessage := []\<rparr>
         in if step s = START then (start s1, None)
            else if step s = EMAIL then
              (if \<not> emailIsValid s then
                 (s1\<lparr>errorMessage := js ''Input email correctly''\<rparr>, None)
               else if emailAuthMode p = ModePassword then
                 (if emailCheckStatus s \<noteq> Ready then
                    (s1\<lparr>errorMessage := js ''Checking email'' @ [0x2026]\<rparr>, None)
                  else (s1\<lparr>step := (if isExistingUser s then PASSWORD else NAME)\<rparr>, None))
               else
                 (let normalizedEmail = toLowerCase rt (normalizeEmail (email s))
                  in (s1\<lparr>busy := True\<rparr>, Some (RequestOtp normalizedEmail, AfterRequestOtp))))
            else if step s = OTP then
              (if \<not> otpIsValid s then
                 (s1\<lparr>errorMessage := js ''Enter 6-digit code''\<rparr>, None)
               else
                 (let normalizedEmail = toLowerCase rt (normalizeEmail (email s));
                      code = trim (otpCode s)
                  in (s1\<lparr>busy := True\<rparr>, Some (VerifyOtp normalizedEmail code, AfterVerifyOtp))))
            else if step s = NAME then
              (if \<not> nameIsValid s then
                 (s1\<lparr>errorMessage := js ''Please enter your name''\<rparr>, None)
               else if emailAuthMode p = ModeOtp then
                 (let trimmedName = trim (name s)
                  in (s1\<lparr>busy := True\<rparr>, Some (UpdateProfile trimmedName, AfterUpdateProfile)))
               else (s1\<lparr>step := PASSWORD\<rparr>, None))
            else if step s = PASSWORD then submit rt s
            else (s1, None)))"

text \<open>\<open>err instanceof Error ? err.message : 'Something went wrong.'\<close>\<close>

definition catchMessage :: "thrown \<Rightarrow> jsstring" where
  "catchMessage err = (case err of ErrorInstance m \<Rightarrow> m | _ \<Rightarrow> js ''Something went wrong.'')"

text \<open>
  The code after the \<open>await\<close> of an action, run on the state current when the call
  settles: the rest of the \<open>try\<close> block or the \<open>catch\<close> block, then \<open>finally\<close>.
  After \<open>updateProfile\<close> resolves, the call of the undeclared \<open>setOtpNeedsName\<close>
  raises a \<open>ReferenceError\<close> inside the \<open>try\<close> block, which the \<open>catch\<close> block
  receives.
\<close>

fun resume :: "runtime \<Rightarrow> continuation \<Rightarrow> jsval settled \<Rightarrow> hook_state \<Rightarrow> hook_state" where
  "resume rt AfterRequestOtp (Resolved v) s =
     s\<lparr>otpCode := [], otpResendSeconds := 30, step := OTP, busy := False\<rparr>"
| "resume rt AfterRequestOtp (Rejected err) s =
     s\<lparr>errorMessage := catchMessage err, busy := False\<rparr>"
| "resume rt AfterResendOtp (Resolved v) s =
     s\<lparr>otpCode := [], otpResendSeconds := 30, busy := False\<rparr>"
| "resume rt AfterResendOtp (Rejected err) s =
     s\<lparr>errorMessage := catchMessage err, busy := False\<rparr>"
| "resume rt AfterVerifyOtp (Resolved v) s = s\<lparr>busy := False\<rparr>"
| "resume rt AfterVerifyOtp (Rejected err) s =
     s\<lparr>errorMessage := explainOtpVerifyError err, busy := False\<rparr>"
| "resume rt AfterUpdateProfile (Resolved v) s =
     s\<lparr>errorMessage := catchMessage (ErrorInstance (undeclaredMessage rt)), busy := False\<rparr>"
| "resume rt AfterUpdateProfile (Rejected err) s =
     s\<lparr>errorMessage := catchMessage err, busy := False\<rparr>"
| "resume rt AfterSubmit (Resolved v) s = s\<lparr>busy := False\<rparr>"
| "resume rt AfterSubmit (Rejected err) s =
     s\<lparr>errorMessage := catchMessage err, busy := False\<rparr>"

subsection \<open>The existence check and the instance\<close>

definition maxAttempts :: nat where
  "maxAttempts = 4"

definition baseDelayMs :: nat where
  "baseDelayMs = 350"

text \<open>
  \<open>Math.floor(Math.random() * 120)\<close> and \<open>baseDelayMs * (attempt + 1) + jitter\<close>, for
  the number \<open>rnd\<close> that \<open>Math.random()\<close> returns. The product is taken exactly here;
  the code rounds it to a double first, which at rare draws gives a jitter greater by one.
\<close>

definition jitter :: "real \<Rightarrow> nat" where
  "jitter rnd = nat \<lfloor>rnd * 120\<rfloor>"

definition backoffDelay :: "nat \<Rightarrow> real \<Rightarrow> nat" where
  "backoffDelay attempt rnd = baseDelayMs * (attempt + 1) + jitter rnd"

text \<open>
  A run of the debounced callback that is suspended: it holds its loop counter and the
  address it captured, and waits for the provider call or for the backoff timer.
\<close>

record check_task =
  attempt :: nat
  normalized :: jsstring
  sleeping :: bool

text \<open>
  One mounted hook: the state cells, the two refs (\<open>emailCheckDebounce\<close> is the armed
  debounce timer with the address its callback captured), the suspended runs of the
  debounced callback under their \<open>reqId\<close>, and the continuations of the pending
  provider calls of the actions.
\<close>

record hook_instance =
  view :: hook_state
  emailCheckRequestId :: nat
  emailCheckDebounce :: "jsstring option"
  checks :: "nat \<rightharpoonup> check_task"
  awaiting :: "continuation list"

text \<open>What an instance does to the outside: provider calls and backoff sleeps (ms).\<close>

datatype effect = Call provider_call | Sleep nat

subsection \<open>Effects\<close>

text \<open>
  Each effect reads the values of the render \<open>r\<close> it was created in and calls setters.
  The interval of the countdown effect is the event \<open>CountdownTick\<close> below.
\<close>

definition clearOtpErrorEffect :: "auth_mode \<Rightarrow> hook_state \<Rightarrow> hook_state \<Rightarrow> hook_state" where
  "clearOtpErrorEffect mode r s =
     (if mode \<noteq> ModeOtp then s
      else if step r \<noteq> OTP then s
      else if errorMessage r = [] then s
      else if otpCode r = [] then s
      else s\<lparr>errorMessage := []\<rparr>)"

definition resetCheckEffect :: "hook_state \<Rightarrow> hook_state \<Rightarrow> hook_state" where
  "resetCheckEffect r s =
     (if step r \<noteq> EMAIL then s
      else s\<lparr>errorMessage := [], emailExists := None, emailCheckStatus := Idle\<rparr>)"

definition autoCheckEffect :: "runtime \<Rightarrow> hook_state \<Rightarrow> hook_instance \<Rightarrow> hook_instance" where
  "autoCheckEffect rt r w =
     (if step r \<noteq> EMAIL then w
      else
        (let normalized = toLowerCase rt (normalizeEmail (email r))
         in if normalized = [] then
              w\<lparr>view := (view w)\<lparr>emailCheckStatus := Idle, emailExists := None\<rparr>\<rparr>
            else if \<not> validateEmailV2 normalized then
              w\<lparr>view := (view w)\<lparr>emailCheckStatus := Idle, emailExists := None\<rparr>\<rparr>
            else w\<lparr>emailCheckDebounce := Some normalized\<rparr>))"

text \<open>
  The effects that run after a render, in the order of the source, given which dependency
  lists changed: \<open>[otpCode]\<close> for the second effect, \<open>[email, step]\<close> for the third and
  (the mode and the provider being fixed) for the fourth, whose cleanup clears the
  debounce timer before its body runs.
\<close>

definition runEffects :: "runtime \<Rightarrow> auth_mode \<Rightarrow> bool \<Rightarrow> bool \<Rightarrow> hook_instance \<Rightarrow> hook_instance" where
  "runEffects rt mode otpCodeChanged emailOrStepChanged w =
     (let r = view w;
          w1 = (if otpCodeChanged then w\<lparr>view := clearOtpErrorEffect mode r (view w)\<rparr> else w);
          w2 = (if emailOrStepChanged then w1\<lparr>view := resetCheckEffect r (view w1)\<rparr> else w1)
      in if emailOrStepChanged then autoCheckEffect rt r (w2\<lparr>emailCheckDebounce := None\<rparr>)
         else w2)"

definition commit :: "runtime \<Rightarrow> props \<Rightarrow> hook_state \<Rightarrow> hook_instance \<Rightarrow> hook_instance" where
  "commit rt p old w =
     runEffects rt (emailAuthMode p)
       (otpCode old \<noteq> otpCode (view w))
       (email old \<noteq> email (view w) \<or> step old \<noteq> step (view w)) w"

text \<open>The first render: every effect runs once.\<close>

definition mount :: "runtime \<Rightarrow> props \<Rightarrow> hook_instance" where
  "mount rt p =
     runEffects rt (emailAuthMode p) True True
       \<lparr>view = initialState p, emailCheckRequestId = 0, emailCheckDebounce = None,
        checks = Map.empty, awaiting = []\<rparr>"

subsection \<open>Events\<close>

text \<open>
  What can happen to a mounted instance: the rendering layer calls a setter or an action,
  the countdown interval ticks, the debounce timer fires, the backend call of a suspended
  check settles (\<open>rnd\<close> is what \<open>Math.random()\<close> returns in the \<open>catch\<close> block), a
  backoff sleep ends, or the backend call of a pending action settles. Each event is
  handled against the last rendered state; the setters called in one synchronous stretch
  of code are applied together and are followed by one render and its effects.
\<close>

datatype event =
    SetName jsstring
  | SetEmail jsstring
  | SetPassword jsstring
  | SetOtpCode jsstring
  | CallStart
  | CallReset
  | CallGoBack
  | CallBeginEditEmail
  | CallGoNext
  | CallSubmit
  | CallResendOtp
  | CountdownTick
  | DebounceFires
  | InvokeSettles nat "response settled" real
  | BackoffEnds nat
  | BackendSettles nat "response settled"

definition perform :: "hook_instance \<Rightarrow> action_result \<Rightarrow> hook_instance \<times> effect list" where
  "perform w res =
     (case res of
        (s, None) \<Rightarrow> (w\<lparr>view := s\<rparr>, [])
      | (s, Some (c, k)) \<Rightarrow> (w\<lparr>view := s, awaiting := awaiting w @ [k]\<rparr>, [Call c]))"

text \<open>The body of the \<open>setTimeout\<close> callback up to its first \<open>await\<close>.\<close>

definition debounceFired :: "jsstring \<Rightarrow> hook_instance \<Rightarrow> hook_instance \<times> effect list" where
  "debounceFired n w =
     (let reqId = emailCheckRequestId w + 1
      in (w\<lparr>emailCheckRequestId := reqId,
            emailCheckDebounce := None,
            view := (view w)\<lparr>emailCheckStatus := Checking, errorMessage := []\<rparr>,
            checks := (checks w)(reqId \<mapsto> \<lparr>attempt = 0, normalized = n, sleeping = False\<rparr>)\<rparr>,
          [Call (CheckEmailExists n)]))"

text \<open>
  From the \<open>await\<close> of \<open>checkEmailExists\<close> to the next suspension: the rest of the
  \<open>try\<close> block, or the \<open>catch\<close> block up to its sleep.
\<close>

definition attemptSettled ::
    "nat \<Rightarrow> check_task \<Rightarrow> response settled \<Rightarrow> real \<Rightarrow> hook_instance \<Rightarrow> hook_instance \<times> effect list" where
  "attemptSettled reqId t invoked rnd w =
     (case checkEmailExists invoked of
        Resolved exists \<Rightarrow>
          if reqId \<noteq> emailCheckRequestId w then (w\<lparr>checks := (checks w)(reqId := None)\<rparr>, [])
          else (w\<lparr>view := (view w)\<lparr>emailExists := Some exists, emailCheckStatus := Ready\<rparr>,
                  checks := (checks w)(reqId := None)\<rparr>, [])
      | Rejected err \<Rightarrow>
          (w\<lparr>checks := (checks w)(reqId \<mapsto> t\<lparr>sleeping := True\<rparr>)\<rparr>,
           [Sleep (backoffDelay (attempt t) rnd)]))"

text \<open>
  From the end of the sleep to the next suspension: the rest of the \<open>catch\<close> block, the
  loop test, and either the next provider call or the code after the loop.
\<close>

definition backoffEnded :: "nat \<Rightarrow> check_task \<Rightarrow> hook_instance \<Rightarrow> hook_instance \<times> effect list" where
  "backoffEnded reqId t w =
     (if reqId \<noteq> emailCheckRequestId w then (w\<lparr>checks := (checks w)(reqId := None)\<rparr>, [])
      else
        (let w1 = w\<lparr>view := (view w)\<lparr>emailCheckStatus := Checking\<rparr>\<rparr>
         in if attempt t + 1 < maxAttempts then
              (w1\<lparr>checks := (checks w)(reqId \<mapsto> t\<lparr>attempt := attempt t + 1, sleeping := False\<rparr>)\<rparr>,
               [Call (CheckEmailExists (normalized t))])
            else
              (w1\<lparr>view := (view w1)\<lparr>emailExists := None, emailCheckStatus := Idle\<rparr>,
                  checks := (checks w)(reqId := None)\<rparr>, [])))"

fun dispatch :: "runtime \<Rightarrow> props \<Rightarrow> event \<Rightarrow> hook_instance \<Rightarrow> hook_instance \<times> effect list" where
  "dispatch rt p (SetName v) w = (w\<lparr>view := (view w)\<lparr>name := v\<rparr>\<rparr>, [])"
| "dispatch rt p (SetEmail v) w = (w\<lparr>view := (view w)\<lparr>email := v\<rparr>\<rparr>, [])"
| "dispatch rt p (SetPassword v) w = (w\<lparr>view := (view w)\<lparr>password := v\<rparr>\<rparr>, [])"
| "dispatch rt p (SetOtpCode v) w = (w\<lparr>view := (view w)\<lparr>otpCode := v\<rparr>\<rparr>, [])"
| "dispatch rt p CallStart w = (w\<lparr>view := start (view w)\<rparr>, [])"
| "dispatch rt p CallReset w = (w\<lparr>view := reset p (view w)\<rparr>, [])"
| "dispatch rt p CallGoBack w = (w\<lparr>view := goBack p (view w)\<rparr>, [])"
| "dispatch rt p CallBeginEditEmail w = (w\<lparr>view := beginEditEmail (view w)\<rparr>, [])"
| "dispatch rt p CallGoNext w = perform w (goNext rt p (view w))"
| "dispatch rt p CallSubmit w = perform w (submit rt (view w))"
| "dispatch rt p CallResendOtp w = perform w (resendOtp rt p (view w))"
| "dispatch rt p CountdownTick w =
     (if emailAuthMode p = ModeOtp \<and> step (view w) = OTP \<and> otpResendSeconds (view w) > 0 then
        (w\<lparr>view := (view w)\<lparr>otpResendSeconds :=
              (if otpResendSeconds (view w) \<le> 1 then 0 else otpResendSeconds (view w) - 1)\<rparr>\<rparr>, [])
      else (w, []))"
| "dispatch rt p DebounceFires w =
     (case emailCheckDebounce w of
        None \<Rightarrow> (w, [])
      | Some n \<Rightarrow> debounceFired n w)"
| "dispatch rt p (InvokeSettles reqId invoked rnd) w =
     (case checks w reqId of
        None \<Rightarrow> (w, [])
      | Some t \<Rightarrow> if sleeping t then (w, []) else attemptSettled reqId t invoked rnd w)"
| "dispatch rt p (BackoffEnds reqId) w =
     (case checks w reqId of
        None \<Rightarrow> (w, [])
      | Some t \<Rightarrow> if sleeping t then backoffEnded reqId t w else (w, []))"
| "dispatch rt p (BackendSettles i called) w =
     (if i < length (awaiting w) then
        (w\<lparr>view := resume rt (awaiting w ! i) (authCall called) (view w),
           awaiting := take i (awaiting w) @ drop (Suc i) (awaiting w)\<rparr>, [])
      else (w, []))"

definition react :: "runtime \<Rightarrow> props \<Rightarrow> event \<Rightarrow> hook_instance \<Rightarrow> hook_instance \<times> effect list" where
  "react rt p ev w = (case dispatch rt p ev w of (w', out) \<Rightarrow> (commit rt p (view w) w', out))"

fun run :: "runtime \<Rightarrow> props \<Rightarrow> event list \<Rightarrow> hook_instance \<Rightarrow> hook_instance \<times> effect list" where
  "run rt p [] w = (w, [])"
| "run rt p (ev # evs) w =
     (case react rt p ev w of
        (w1, out1) \<Rightarrow> (case run rt p evs w1 of (w2, out2) \<Rightarrow> (w2, out1 @ out2)))"

text \<open>
  An engine for runs on ASCII addresses: \<open>toLowerCase\<close> maps \<open>A\<close>..\<open>Z\<close> to
  \<open>a\<close>..\<open>z\<close>, which is what the Unicode mapping does on ASCII strings.
\<close>

definition asciiRuntime :: runtime where
  "asciiRuntime =
     \<lparr>toLowerCase = map (\<lambda>c. if 0x41 \<le> c \<and> c \<le> 0x5A then c + 0x20 else c),
      undeclaredMessage = js ''setOtpNeedsName is not defined''\<rparr>"

section \<open>Notions of the specification\<close>

text \<open>
  The number of Unicode code points of a string: a high surrogate followed by a low
  surrogate is one code point, every other code unit is one code point.
\<close>

fun codePointCount :: "jsstring \<Rightarrow> nat" where
  "codePointCount [] = 0"
| "codePointCount [c] = 1"
| "codePointCount (h # l # cs) =
     (if 0xD800 \<le> h \<and> h \<le> 0xDBFF \<and> 0xDC00 \<le> l \<and> l \<le> 0xDFFF
      then Suc (codePointCount cs) else Suc (codePointCount (l # cs)))"

text \<open>
  The words of the mode resolver's rules, on the \<open>email\<close> part of the configuration:
  a method is explicitly disabled when its flag is \<open>false\<close>, explicitly enabled when its
  flag is \<open>true\<close>.
\<close>

definition codeDisabled :: "jsval \<Rightarrow> bool" where
  "codeDisabled opts = (getProp (emailOptions opts) ''otp'' = JBool False)"

definition passwordDisabled :: "jsval \<Rightarrow> bool" where
  "passwordDisabled opts = (getProp (emailOptions opts) ''password'' = JBool False)"

definition passwordEnabled :: "jsval \<Rightarrow> bool" where
  "passwordEnabled opts = (getProp (emailOptions opts) ''password'' = JBool True)"

definition configuredDefault :: "jsval \<Rightarrow> jsval" where
  "configuredDefault opts = getProp (emailOptions opts) ''default''"

text \<open>The configuration object \<open>{ email: { ... } }\<close>.\<close>

definition emailConfig :: "(string \<times> jsval) list \<Rightarrow> jsval" where
  "emailConfig ps = JObj [(''email'', JObj ps)]"

text \<open>The address that a provider call carries, if it carries one.\<close>

fun callEmail :: "provider_call \<Rightarrow> jsstring option" where
  "callEmail (CheckEmailExists e) = Some e"
| "callEmail (RequestOtp e) = Some e"
| "callEmail (VerifyOtp e c) = Some e"
| "callEmail (UpdateProfile n) = None"
| "callEmail (SignUp n e pw) = Some e"
| "callEmail (SignIn e pw) = Some e"

text \<open>The value of the email field after the first \<open>k\<close> events of a run from the mount.\<close>

definition emailAt :: "runtime \<Rightarrow> props \<Rightarrow> event list \<Rightarrow> nat \<Rightarrow> jsstring" where
  "emailAt rt p evs k = email (view (fst (run rt p (take k evs) (mount rt p))))"

text \<open>An armed debounce timer holds the normalised form of the current email field.\<close>

definition debounceCurrent :: "runtime \<Rightarrow> hook_instance \<Rightarrow> bool" where
  "debounceCurrent rt w \<longleftrightarrow>
     (\<forall>n. emailCheckDebounce w = Some n \<longrightarrow> n = toLowerCase rt (normalizeEmail (email (view w))))"

text \<open>
  What a pattern matches, said without the matcher: the strings of \<open>Rep p\<close> are the
  concatenations of strings of \<open>p\<close>.
\<close>

inductive_set repetitions :: "jsstring set \<Rightarrow> jsstring set" for A :: "jsstring set" where
  none: "[] \<in> repetitions A"
| more: "u \<in> A \<Longrightarrow> v \<in> repetitions A \<Longrightarrow> u @ v \<in> repetitions A"

fun matches :: "pat \<Rightarrow> jsstring set" where
  "matches Never = {}"
| "matches Empty = {[]}"
| "matches (Class f) = {[c] | c. f c}"
| "matches (Cat p q) = {u @ v | u v. u \<in> matches p \<and> v \<in> matches q}"
| "matches (Alt p q) = matches p \<union> matches q"
| "matches (Rep p) = repetitions (matches p)"

text \<open>A string contains a word, up to the case of ASCII letters.\<close>

definition containsIgnoringCase :: "jsstring \<Rightarrow> jsstring \<Rightarrow> bool" where
  "containsIgnoringCase word s \<longleftrightarrow>
     (\<exists>u v w. s = u @ v @ w \<and> map canonicalize v = map canonicalize word)"

text \<open>The invariant of the data model: \<open>exists\<close> is non-null only when the status is Ready.\<close>

definition existsOnlyWhenReady :: "hook_state \<Rightarrow> bool" where
  "existsOnlyWhenReady s \<longleftrightarrow> emailExists s = None \<or> emailCheckStatus s = Ready"

subsection \<open>Concrete flows\<close>

text \<open>
  Three hosts: the default configuration (one-time codes), a configuration that opts
  into passwords, and a flow that starts at the email step.
\<close>

definition codeFlow :: props where
  "codeFlow = \<lparr>startAt = JUndefined, options = JUndefined\<rparr>"

definition passwordFlow :: props where
  "passwordFlow =
     \<lparr>startAt = JUndefined,
      options = emailConfig [(''password'', JBool True), (''otp'', JBool False)]\<rparr>"

definition emailFirst :: props where
  "emailFirst = \<lparr>startAt = JStr (js ''email''), options = JUndefined\<rparr>"

text \<open>Backend responses: success, an error with a message, an existence answer.\<close>

definition succeeded :: "response settled" where
  "succeeded = Resolved \<lparr>data = JObj [], error = JNull\<rparr>"

definition failed :: "jsstring \<Rightarrow> response settled" where
  "failed m = Resolved \<lparr>data = JNull, error = JObj [(''message'', JStr m)]\<rparr>"

definition found :: "bool \<Rightarrow> response settled" where
  "found b = Resolved \<lparr>data = JObj [(''exists'', JBool b)], error = JNull\<rparr>"

definition blank :: hook_state where
  "blank = initialState codeFlow"

text \<open>
  The password flow after the user has opened the email step and typed \<open>a@x.com\<close>
  (or the same address in capitals between spaces); then after the debounce timer has
  fired and the user has replaced the address by \<open>b@x.com\<close> while the check of
  \<open>a@x.com\<close> is in flight.
\<close>

definition typedFirst :: hook_instance where
  "typedFirst =
     fst (run asciiRuntime passwordFlow [CallStart, SetEmail (js ''a@x.com'')]
            (mount asciiRuntime passwordFlow))"

definition typedLoud :: hook_instance where
  "typedLoud =
     fst (run asciiRuntime passwordFlow [CallStart, SetEmail (js '' A@X.com '')]
            (mount asciiRuntime passwordFlow))"

definition editedInFlight :: hook_instance where
  "editedInFlight =
     fst (run asciiRuntime passwordFlow [DebounceFires, SetEmail (js ''b@x.com'')] typedFirst)"

text \<open>A password of four times U+1F917: 4 code points in 8 code units.\<close>

definition fourFaces :: jsstring where
  "fourFaces = [0xD83E, 0xDD17, 0xD83E, 0xDD17, 0xD83E, 0xDD17, 0xD83E, 0xDD17]"

text \<open>
  The password flow at the password step of a returning user, and the code flow at the
  code step with a well-formed code typed.
\<close>

definition atPassword :: hook_instance where
  "atPassword =
     fst (run asciiRuntime passwordFlow
            [DebounceFires, InvokeSettles 1 (found True) 0, CallGoNext,
             SetPassword (js ''hunter22'')] typedFirst)"

definition atCode :: hook_instance where
  "atCode =
     fst (run asciiRuntime codeFlow
            [CallStart, SetEmail (js ''a@x.com''), CallGoNext, BackendSettles 0 succeeded,
             SetOtpCode (js ''123456'')] (mount asciiRuntime codeFlow))"

section \<open>Properties of the validators and of the mode resolver\<close>

lemma codePointCount_le_length: "codePointCount s \<le> length s"
  by (induction s rule: codePointCount.induct) auto

text \<open>
  C8, as the code has it: \<open>validatePasswordV1\<close> accepts a string if and only if it has
  at least 8 UTF-16 code units. A string of at least 8 code points is therefore accepted,
  but so is a shorter one whose code points need surrogate pairs.
\<close>

theorem validatePasswordV1_code_units:
  "(validatePasswordV1 s \<longleftrightarrow> 8 \<le> length s) \<and> (8 \<le> codePointCount s \<longrightarrow> validatePasswordV1 s)"
  using codePointCount_le_length [of s] by (simp add: validatePasswordV1_def)

theorem validatePasswordV1_code_units_witness:
  "8 \<le> codePointCount (js ''hunter22'') \<and> validatePasswordV1 (js ''hunter22'')"
  using validatePasswordV1_code_units [of "js ''hunter22''"] by (simp add: js_def)

text \<open>
  Four times U+1F917 is 4 code points and 8 code units: the validator accepts it.
\<close>

theorem validatePasswordV1_code_points_counterexample:
  "validatePasswordV1 [0xD83E, 0xDD17, 0xD83E, 0xDD17, 0xD83E, 0xDD17, 0xD83E, 0xDD17]
   \<and> \<not> 8 \<le> codePointCount [0xD83E, 0xDD17, 0xD83E, 0xDD17, 0xD83E, 0xDD17, 0xD83E, 0xDD17]"
  by (simp add: validatePasswordV1_def)

text \<open>
  C2, as the code has it: (1) the code method explicitly disabled and the password method
  explicitly enabled give \<open>password\<close>; (2) the code method not disabled and the password
  method not explicitly enabled give \<open>otp\<close>; (3) both enabled give \<open>otp\<close> when the
  configured default is \<open>otp\<close> and \<open>password\<close> otherwise, in particular when no default
  is given; (4) the code method explicitly disabled and the password method not explicitly
  enabled give \<open>otp\<close>, in particular when both are explicitly disabled.
\<close>

theorem resolveEmailAuthMode_rules:
  "(codeDisabled opts \<and> passwordEnabled opts \<longrightarrow> resolveEmailAuthMode opts = ModePassword)
   \<and> (\<not> codeDisabled opts \<and> \<not> passwordEnabled opts \<longrightarrow> resolveEmailAuthMode opts = ModeOtp)
   \<and> (\<not> codeDisabled opts \<and> passwordEnabled opts \<longrightarrow>
        resolveEmailAuthMode opts =
          (if configuredDefault opts = JStr (js ''otp'') then ModeOtp else ModePassword))
   \<and> (codeDisabled opts \<and> \<not> passwordEnabled opts \<longrightarrow> resolveEmailAuthMode opts = ModeOtp)
   \<and> (codeDisabled opts \<and> passwordDisabled opts \<longrightarrow> resolveEmailAuthMode opts = ModeOtp)"
  by (simp add: resolveEmailAuthMode_def codeDisabled_def passwordEnabled_def
      passwordDisabled_def configuredDefault_def Let_def)

theorem resolveEmailAuthMode_rules_witness:
  "(codeDisabled (emailConfig [(''otp'', JBool False), (''password'', JBool True)])
    \<and> passwordEnabled (emailConfig [(''otp'', JBool False), (''password'', JBool True)])
    \<and> resolveEmailAuthMode (emailConfig [(''otp'', JBool False), (''password'', JBool True)])
        = ModePassword)
   \<and> (\<not> codeDisabled JUndefined \<and> \<not> passwordEnabled JUndefined
    \<and> resolveEmailAuthMode JUndefined = ModeOtp)
   \<and> (\<not> codeDisabled (emailConfig [(''password'', JBool True)])
    \<and> passwordEnabled (emailConfig [(''password'', JBool True)])
    \<and> resolveEmailAuthMode (emailConfig [(''password'', JBool True)]) = ModePassword)
   \<and> (\<not> codeDisabled (emailConfig [(''password'', JBool True), (''default'', JStr (js ''otp''))])
    \<and> passwordEnabled (emailConfig [(''password'', JBool True), (''default'', JStr (js ''otp''))])
    \<and> resolveEmailAuthMode
          (emailConfig [(''password'', JBool True), (''default'', JStr (js ''otp''))]) = ModeOtp)
   \<and> (codeDisabled (emailConfig [(''otp'', JBool False), (''password'', JBool False)])
    \<and> passwordDisabled (emailConfig [(''otp'', JBool False), (''password'', JBool False)])
    \<and> \<not> passwordEnabled (emailConfig [(''otp'', JBool False), (''password'', JBool False)])
    \<and> resolveEmailAuthMode (emailConfig [(''otp'', JBool False), (''password'', JBool False)])
        = ModeOtp)"
  using resolveEmailAuthMode_rules [of "emailConfig [(''otp'', JBool False), (''password'', JBool True)]"]
    resolveEmailAuthMode_rules [of JUndefined]
    resolveEmailAuthMode_rules [of "emailConfig [(''password'', JBool True)]"]
    resolveEmailAuthMode_rules
      [of "emailConfig [(''password'', JBool True), (''default'', JStr (js ''otp''))]"]
    resolveEmailAuthMode_rules [of "emailConfig [(''otp'', JBool False), (''password'', JBool False)]"]
  by (simp add: codeDisabled_def passwordEnabled_def passwordDisabled_def configuredDefault_def
      emailOptions_def emailConfig_def js_def)

text \<open>
  With \<open>{ email: { otp: false } }\<close> the code method is explicitly disabled and the
  password method is not disabled, and the result is \<open>otp\<close>.
\<close>

theorem resolveEmailAuthMode_rule1_counterexample:
  "codeDisabled (emailConfig [(''otp'', JBool False)])
   \<and> \<not> passwordDisabled (emailConfig [(''otp'', JBool False)])
   \<and> resolveEmailAuthMode (emailConfig [(''otp'', JBool False)]) \<noteq> ModePassword"
  by (simp add: resolveEmailAuthMode_def codeDisabled_def passwordDisabled_def
      emailOptions_def emailConfig_def)

section \<open>Properties of the providers\<close>

text \<open>
  C6: \<open>checkEmailExists\<close> resolves with \<open>b\<close> exactly when the response has no truthy
  \<open>error\<close> and its data carries the boolean \<open>exists = b\<close>; when the \<open>exists\<close> field is
  absent or not a boolean, or when the response carries an error, it rejects with an
  \<open>Error\<close>; and a rejection of the backend call itself is passed on as a rejection.
\<close>

theorem checkEmailExists_fails_closed:
  "(checkEmailExists (Resolved r) = Resolved b
      \<longleftrightarrow> \<not> truthy (error r) \<and> getProp (data r) ''exists'' = JBool b)
   \<and> (typeof (getProp (data r) ''exists'') \<noteq> TBoolean \<or> truthy (error r)
      \<longrightarrow> (\<exists>m. checkEmailExists (Resolved r) = Rejected (ErrorInstance m)))
   \<and> checkEmailExists (Rejected e) = Rejected e"
  by (cases "getProp (data r) ''exists''") (auto simp: checkEmailExists_def)

theorem checkEmailExists_fails_closed_witness:
  "(checkEmailExists (Resolved \<lparr>data = JObj [(''exists'', JBool False)], error = JNull\<rparr>)
      = Resolved False)
   \<and> (typeof (getProp (JObj [(''exists'', JStr (js ''yes''))]) ''exists'') \<noteq> TBoolean
      \<and> (\<exists>m. checkEmailExists
                (Resolved \<lparr>data = JObj [(''exists'', JStr (js ''yes''))], error = JNull\<rparr>)
              = Rejected (ErrorInstance m)))
   \<and> (truthy (JObj [(''message'', JStr (js ''boom''))])
      \<and> (\<exists>m. checkEmailExists
                (Resolved \<lparr>data = JObj [(''exists'', JBool True)],
                           error = JObj [(''message'', JStr (js ''boom''))]\<rparr>)
              = Rejected (ErrorInstance m)))"
  using checkEmailExists_fails_closed
      [of "\<lparr>data = JObj [(''exists'', JBool False)], error = JNull\<rparr>" False]
    checkEmailExists_fails_closed
      [of "\<lparr>data = JObj [(''exists'', JStr (js ''yes''))], error = JNull\<rparr>"]
    checkEmailExists_fails_closed
      [of "\<lparr>data = JObj [(''exists'', JBool True)],
            error = JObj [(''message'', JStr (js ''boom''))]\<rparr>"]
  by simp

section \<open>Properties of the flow controller\<close>

subsection \<open>Matching six digits\<close>

lemma derivs_Never: "\<not> nullable (derivs Never s)"
  by (induction s) auto

lemma derivs_Alt: "nullable (derivs (Alt p q) s) \<longleftrightarrow> nullable (derivs p s) \<or> nullable (derivs q s)"
  by (induction s arbitrary: p q) auto

lemma derivs_Cat_Never: "\<not> nullable (derivs (Cat Never q) s)"
  by (induction s) auto

lemma derivs_Cat_Empty: "nullable (derivs (Cat Empty q) s) \<longleftrightarrow> nullable (derivs q s)"
  by (cases s) (auto simp: derivs_Alt derivs_Cat_Never)

lemma testAnchored_Empty: "testAnchored Empty s \<longleftrightarrow> s = []"
  by (cases s) (auto simp: testAnchored_def derivs_Never)

lemma testAnchored_Class_Cat:
  "testAnchored (Cat (Class f) q) s \<longleftrightarrow> (\<exists>c cs. s = c # cs \<and> f c \<and> testAnchored q cs)"
  by (cases s) (auto simp: testAnchored_def derivs_Cat_Empty derivs_Cat_Never)

lemma testAnchored_times_Class:
  "testAnchored (times n (Class f)) s \<longleftrightarrow> length s = n \<and> list_all f s"
proof (induction n arbitrary: s)
  case 0
  then show ?case by (auto simp: testAnchored_Empty)
next
  case (Suc n)
  then show ?case by (cases s) (auto simp: testAnchored_Class_Cat)
qed

lemma validateOtpCodeV1_six_digits:
  "validateOtpCodeV1 code \<longleftrightarrow> length (trim code) = 6 \<and> list_all isDigit (trim code)"
  by (simp add: validateOtpCodeV1_def testAnchored_times_Class Let_def)

subsection \<open>The matcher decides the patterns\<close>

lemma nullable_matches: "nullable p \<longleftrightarrow> [] \<in> matches p"
  by (induction p) (auto intro: repetitions.none)

lemma repetitions_Cons:
  "c # s \<in> repetitions A \<longleftrightarrow> (\<exists>u v. s = u @ v \<and> c # u \<in> A \<and> v \<in> repetitions A)"
proof
  assume "c # s \<in> repetitions A"
  then show "\<exists>u v. s = u @ v \<and> c # u \<in> A \<and> v \<in> repetitions A"
  proof (induction "c # s" arbitrary: s rule: repetitions.induct)
    case (more u v)
    show ?case
    proof (cases u)
      case Nil
      with more show ?thesis by simp
    next
      case (Cons a u')
      with more have "s = u' @ v" "c # u' \<in> A" "v \<in> repetitions A" by auto
      then show ?thesis by blast
    qed
  qed
next
  assume "\<exists>u v. s = u @ v \<and> c # u \<in> A \<and> v \<in> repetitions A"
  then obtain u v where "s = u @ v" "c # u \<in> A" "v \<in> repetitions A"
    by blast
  then show "c # s \<in> repetitions A"
    using repetitions.more [of "c # u" A v] by simp
qed

lemma matches_CatI: "u \<in> matches p \<Longrightarrow> v \<in> matches q \<Longrightarrow> u @ v \<in> matches (Cat p q)"
  by (simp, blast)

lemma matches_Class_Cat:
  "s \<in> matches (Cat (Class f) q) \<longleftrightarrow> (\<exists>c v. s = c # v \<and> f c \<and> v \<in> matches q)"
proof
  assume "s \<in> matches (Cat (Class f) q)"
  then show "\<exists>c v. s = c # v \<and> f c \<and> v \<in> matches q"
    by auto
next
  assume "\<exists>c v. s = c # v \<and> f c \<and> v \<in> matches q"
  then obtain c v where "s = [c] @ v" "[c] \<in> matches (Class f)" "v \<in> matches q"
    by auto
  then show "s \<in> matches (Cat (Class f) q)"
    using matches_CatI by blast
qed

lemma deriv_matches: "s \<in> matches (deriv c p) \<longleftrightarrow> c # s \<in> matches p"
proof (induction p arbitrary: s)
  case (Cat p q)
  have "c # s \<in> matches (Cat p q) \<longleftrightarrow>
      ([] \<in> matches p \<and> c # s \<in> matches q)
      \<or> (\<exists>u v. s = u @ v \<and> c # u \<in> matches p \<and> v \<in> matches q)"
    by (auto simp: Cons_eq_append_conv)
  then show ?case
    using Cat by (auto simp: nullable_matches)
next
  case (Rep p)
  then show ?case by (auto simp: repetitions_Cons)
qed auto

lemma testAnchored_matches: "testAnchored p s \<longleftrightarrow> s \<in> matches p"
  unfolding testAnchored_def
  by (induction s arbitrary: p) (simp_all add: nullable_matches deriv_matches)

lemma repetitions_any: "s \<in> repetitions {[c] | c. True}"
proof (induction s)
  case Nil
  show ?case by (rule repetitions.none)
next
  case (Cons c s)
  then show ?case
    using repetitions.more [of "[c]" "{[c] | c. True}" s] by simp
qed

lemma testAnywhere_matches:
  "testAnywhere p s \<longleftrightarrow> (\<exists>u v w. s = u @ v @ w \<and> v \<in> matches p)"
proof
  assume "testAnywhere p s"
  then show "\<exists>u v w. s = u @ v @ w \<and> v \<in> matches p"
    by (auto simp: testAnywhere_def testAnchored_matches)
next
  assume "\<exists>u v w. s = u @ v @ w \<and> v \<in> matches p"
  then obtain u v w where "s = u @ v @ w" "v \<in> matches p"
    by blast
  moreover have "u \<in> repetitions {[c] | c. True}" "w \<in> repetitions {[c] | c. True}"
    by (rule repetitions_any)+
  ultimately have "s \<in> matches (Cat (Rep (Class (\<lambda>c. True))) (Cat p (Rep (Class (\<lambda>c. True)))))"
    by auto
  then show "testAnywhere p s"
    by (simp add: testAnywhere_def testAnchored_matches)
qed

lemma matches_literal_i:
  "v \<in> matches (literal_i word) \<longleftrightarrow> map canonicalize v = map canonicalize word"
proof (induction word arbitrary: v)
  case Nil
  show ?case by simp
next
  case (Cons a word)
  show ?case
    unfolding literal_i.simps matches_Class_Cat
    by (auto simp: Cons Cons_eq_map_conv)
qed

lemma testAnywhere_literal_i:
  "testAnywhere (literal_i word) s \<longleftrightarrow> containsIgnoringCase word s"
  by (simp add: testAnywhere_matches matches_literal_i containsIgnoringCase_def)

lemma explainOtpVerifyError_Error:
  "explainOtpVerifyError (ErrorInstance m) =
     (if containsIgnoringCase (js ''otp'') m \<or> containsIgnoringCase (js ''token'') m
         \<or> containsIgnoringCase (js ''invalid'') m \<or> containsIgnoringCase (js ''expired'') m
      then js ''Wrong code'' else m)"
  by (simp add: explainOtpVerifyError_def testAnywhere_literal_i)

lemma repetitions_Class: "s \<in> repetitions {[c] | c. f c} \<longleftrightarrow> list_all f s"
proof (induction s)
  case Nil
  show ?case by (simp add: repetitions.none)
next
  case (Cons c s)
  then show ?case by (auto simp: repetitions_Cons)
qed

lemma matches_oneOrMore_Class:
  "s \<in> matches (oneOrMore (Class f)) \<longleftrightarrow> s \<noteq> [] \<and> list_all f s"
  unfolding oneOrMore_def matches_Class_Cat
  by (cases s) (auto simp: repetitions_Class)

lemma matches_oneOrMore_Class_Cat:
  "s \<in> matches (Cat (oneOrMore (Class f)) q) \<longleftrightarrow>
     (\<exists>u v. s = u @ v \<and> u \<noteq> [] \<and> list_all f u \<and> v \<in> matches q)"
proof
  assume "s \<in> matches (Cat (oneOrMore (Class f)) q)"
  then obtain u v where "s = u @ v" "u \<in> matches (oneOrMore (Class f))" "v \<in> matches q"
    by auto
  then obtain c r where "s = (c # r) @ v" "f c" "list_all f r" "v \<in> matches q"
    by (auto simp: matches_oneOrMore_Class neq_Nil_conv)
  then have "s = (c # r) @ v \<and> c # r \<noteq> [] \<and> list_all f (c # r) \<and> v \<in> matches q"
    by simp
  then show "\<exists>u v. s = u @ v \<and> u \<noteq> [] \<and> list_all f u \<and> v \<in> matches q"
    by blast
next
  assume "\<exists>u v. s = u @ v \<and> u \<noteq> [] \<and> list_all f u \<and> v \<in> matches q"
  then obtain c r v where "s = (c # r) @ v" "f c" "list_all f r" "v \<in> matches q"
    by (auto simp: neq_Nil_conv)
  then have "c # r \<in> matches (oneOrMore (Class f))" "s = (c # r) @ v" "v \<in> matches q"
    by (simp_all add: matches_oneOrMore_Class)
  then show "s \<in> matches (Cat (oneOrMore (Class f)) q)"
    using matches_CatI by blast
qed

lemma validateEmailV2_shape:
  "validateEmailV2 e \<longleftrightarrow>
     (\<exists>l d t. trim e = l @ [0x40] @ d @ [0x2E] @ t
        \<and> l \<noteq> [] \<and> d \<noteq> [] \<and> t \<noteq> []
        \<and> list_all (\<lambda>c. \<not> isWhiteSpace c \<and> c \<noteq> 0x40) (l @ d @ t))"
  unfolding validateEmailV2_def normalizeEmail_def testAnchored_matches emailPattern_def Let_def
    matches_oneOrMore_Class_Cat matches_Class_Cat matches_oneOrMore_Class
  by (auto; blast)

subsection \<open>Enablement of the primary action\<close>

text \<open>
  C3, as the code has it: \<open>canContinue\<close> is false whenever \<open>busy\<close>; otherwise it is
  true on the Start step, equals email validity on the Email step under the otp strategy,
  email validity and status Ready on the Email step under the password strategy, "the
  trimmed code is exactly six ASCII digits" on the Code step, "the trimmed name is not
  empty" on the Name step, and "the password has at least 8 UTF-16 code units" on the
  Password step, where the validators of the specification count 8 code points. The step
  is one of the five values of \<open>AUTH_STEP\<close>, so there is no other step.
\<close>

theorem canContinue_table:
  "(busy s \<longrightarrow> \<not> canContinue mode s)
   \<and> (\<not> busy s \<and> step s = START \<longrightarrow> canContinue mode s)
   \<and> (\<not> busy s \<and> step s = EMAIL \<and> mode = ModeOtp \<longrightarrow>
        (canContinue mode s \<longleftrightarrow> validateEmailV2 (email s)))
   \<and> (\<not> busy s \<and> step s = EMAIL \<and> mode = ModePassword \<longrightarrow>
        (canContinue mode s \<longleftrightarrow> validateEmailV2 (email s) \<and> emailCheckStatus s = Ready))
   \<and> (\<not> busy s \<and> step s = OTP \<longrightarrow>
        (canContinue mode s \<longleftrightarrow>
           length (trim (otpCode s)) = 6 \<and> list_all isDigit (trim (otpCode s))))
   \<and> (\<not> busy s \<and> step s = NAME \<longrightarrow> (canContinue mode s \<longleftrightarrow> trim (name s) \<noteq> []))
   \<and> (\<not> busy s \<and> step s = PASSWORD \<longrightarrow> (canContinue mode s \<longleftrightarrow> 8 \<le> length (password s)))"
  by (simp add: canContinue_def emailIsValid_def otpIsValid_def nameIsValid_def
      passwordIsValid_def validatePasswordV1_def validateOtpCodeV1_six_digits)

theorem canContinue_table_witness:
  "(busy (blank\<lparr>busy := True\<rparr>) \<and> \<not> canContinue ModeOtp (blank\<lparr>busy := True\<rparr>))
   \<and> (\<not> busy blank \<and> step blank = START \<and> canContinue ModePassword blank)
   \<and> (\<not> busy (blank\<lparr>step := EMAIL, email := js ''a@x.com''\<rparr>)
      \<and> step (blank\<lparr>step := EMAIL, email := js ''a@x.com''\<rparr>) = EMAIL
      \<and> canContinue ModeOtp (blank\<lparr>step := EMAIL, email := js ''a@x.com''\<rparr>)
      \<and> \<not> canContinue ModePassword (blank\<lparr>step := EMAIL, email := js ''a@x.com''\<rparr>))
   \<and> (\<not> busy (blank\<lparr>step := OTP, otpCode := js '' 123456''\<rparr>)
      \<and> step (blank\<lparr>step := OTP, otpCode := js '' 123456''\<rparr>) = OTP
      \<and> canContinue ModeOtp (blank\<lparr>step := OTP, otpCode := js '' 123456''\<rparr>))
   \<and> (\<not> busy (blank\<lparr>step := NAME, name := js '' ''\<rparr>)
      \<and> step (blank\<lparr>step := NAME, name := js '' ''\<rparr>) = NAME
      \<and> \<not> canContinue ModePassword (blank\<lparr>step := NAME, name := js '' ''\<rparr>))
   \<and> (\<not> busy (blank\<lparr>step := PASSWORD, password := js ''hunter22''\<rparr>)
      \<and> step (blank\<lparr>step := PASSWORD, password := js ''hunter22''\<rparr>) = PASSWORD
      \<and> canContinue ModePassword (blank\<lparr>step := PASSWORD, password := js ''hunter22''\<rparr>))"
  using canContinue_table [of "blank\<lparr>busy := True\<rparr>" ModeOtp]
    canContinue_table [of blank ModePassword]
    canContinue_table [of "blank\<lparr>step := EMAIL, email := js ''a@x.com''\<rparr>" ModeOtp]
    canContinue_table [of "blank\<lparr>step := EMAIL, email := js ''a@x.com''\<rparr>" ModePassword]
    canContinue_table [of "blank\<lparr>step := OTP, otpCode := js '' 123456''\<rparr>" ModeOtp]
    canContinue_table [of "blank\<lparr>step := NAME, name := js '' ''\<rparr>" ModePassword]
    canContinue_table [of "blank\<lparr>step := PASSWORD, password := js ''hunter22''\<rparr>" ModePassword]
  by (simp add: blank_def codeFlow_def initialState_def initialStep_def js_def trim_def
      isWhiteSpace_def isDigit_def validateEmailV2_def normalizeEmail_def emailPattern_def
      oneOrMore_def testAnchored_def Let_def)

text \<open>
  On the Password step of the password flow, not busy, the user types four times U+1F917:
  the password has 4 code points, fewer than the 8 of the specification's password
  validity, and \<open>canContinue\<close> is true.
\<close>

theorem canContinue_password_counterexample:
  "\<not> busy (view (fst (react asciiRuntime passwordFlow (SetPassword fourFaces) atPassword)))
   \<and> step (view (fst (react asciiRuntime passwordFlow (SetPassword fourFaces) atPassword)))
       = PASSWORD
   \<and> password (view (fst (react asciiRuntime passwordFlow (SetPassword fourFaces) atPassword)))
       = fourFaces
   \<and> \<not> 8 \<le> codePointCount fourFaces
   \<and> canContinue (emailAuthMode passwordFlow)
         (view (fst (react asciiRuntime passwordFlow (SetPassword fourFaces) atPassword)))"
  by code_simp

subsection \<open>Going back from the email step\<close>

text \<open>
  C7, as the code has it: in every state whose step is Email, \<open>goBack\<close> followed by the
  render's effects leaves the step at the configured initial step (Start, unless the
  flow was configured with \<open>startAt = 'email'\<close>, in which case the step stays Email), the
  email field empty, the existence-check status Idle and \<open>emailExists\<close> null.
\<close>

theorem goBack_from_email:
  "step (view w) = EMAIL \<longrightarrow>
     step (view (fst (react rt p CallGoBack w)))
       = (if startAt p = JStr (js ''email'') then EMAIL else START)
     \<and> email (view (fst (react rt p CallGoBack w))) = []
     \<and> emailCheckStatus (view (fst (react rt p CallGoBack w))) = Idle
     \<and> emailExists (view (fst (react rt p CallGoBack w))) = None"
  by (auto simp: react_def goBack_def commit_def runEffects_def resetCheckEffect_def
      autoCheckEffect_def initialStep_def Let_def)

theorem goBack_from_email_witness:
  "step (view typedFirst) = EMAIL
   \<and> step (view (fst (react asciiRuntime passwordFlow CallGoBack typedFirst))) = START
   \<and> email (view (fst (react asciiRuntime passwordFlow CallGoBack typedFirst))) = []
   \<and> emailCheckStatus (view (fst (react asciiRuntime passwordFlow CallGoBack typedFirst))) = Idle
   \<and> emailExists (view (fst (react asciiRuntime passwordFlow CallGoBack typedFirst))) = None"
proof -
  have at_email: "step (view typedFirst) = EMAIL"
    by code_simp
  show ?thesis
    using goBack_from_email [of typedFirst asciiRuntime passwordFlow] at_email
    by (simp add: passwordFlow_def)
qed

text \<open>A flow mounted with \<open>startAt = 'email'\<close> is on the Email step and stays there.\<close>

theorem goBack_from_email_counterexample:
  "step (view (mount asciiRuntime emailFirst)) = EMAIL
   \<and> step (view (fst (react asciiRuntime emailFirst CallGoBack (mount asciiRuntime emailFirst))))
       \<noteq> START"
  by code_simp

subsection \<open>Failure of a submission\<close>

lemma commit_same_deps:
  "otpCode (view w) = otpCode old \<Longrightarrow> email (view w) = email old \<Longrightarrow> step (view w) = step old \<Longrightarrow>
   commit rt p old w = w"
  by (simp add: commit_def runEffects_def)

text \<open>
  C5, as the code has it. On the Password step, with a valid password and not busy,
  \<open>goNext\<close> (and \<open>submit\<close>) calls \<open>signUp\<close> or \<open>signIn\<close>, changing only the error
  message and the busy flag; when that call rejects with an \<open>Error\<close> of message \<open>m\<close>, the
  error message becomes \<open>m\<close> verbatim and the step and every field stay as they are. On
  the Code step, with a well-formed code and not busy, \<open>goNext\<close> calls \<open>verifyOtp\<close>
  likewise; when that call rejects with an \<open>Error\<close> of message \<open>m\<close>, the error message
  becomes \<open>explainOtpVerifyError\<close> of it, which is \<open>Wrong code\<close> when \<open>m\<close> contains
  \<open>otp\<close>, \<open>token\<close>, \<open>invalid\<close> or \<open>expired\<close> in any letter case and \<open>m\<close>
  otherwise, and the step and every field stay as they are.
\<close>

theorem submission_failure:
  "(\<not> busy (view w) \<and> step (view w) = PASSWORD \<and> passwordIsValid (view w)
        \<and> (ev = CallGoNext \<or> ev = CallSubmit) \<longrightarrow>
      react rt p ev w =
        (w\<lparr>view := (view w)\<lparr>errorMessage := [], busy := True\<rparr>,
           awaiting := awaiting w @ [AfterSubmit]\<rparr>,
         [Call (if isNewUser (view w)
                then SignUp (trim (name (view w)))
                       (toLowerCase rt (normalizeEmail (email (view w)))) (password (view w))
                else SignIn (toLowerCase rt (normalizeEmail (email (view w))))
                       (password (view w)))]))
   \<and> (i < length (awaiting w) \<and> awaiting w ! i = AfterSubmit
        \<and> authCall called = Rejected (ErrorInstance m) \<longrightarrow>
      view (fst (react rt p (BackendSettles i called) w))
        = (view w)\<lparr>errorMessage := m, busy := False\<rparr>)
   \<and> (\<not> busy (view w) \<and> step (view w) = OTP \<and> otpIsValid (view w) \<longrightarrow>
      react rt p CallGoNext w =
        (w\<lparr>view := (view w)\<lparr>errorMessage := [], busy := True\<rparr>,
           awaiting := awaiting w @ [AfterVerifyOtp]\<rparr>,
         [Call (VerifyOtp (toLowerCase rt (normalizeEmail (email (view w))))
                  (trim (otpCode (view w))))]))
   \<and> (i < length (awaiting w) \<and> awaiting w ! i = AfterVerifyOtp
        \<and> authCall called = Rejected (ErrorInstance m) \<longrightarrow>
      view (fst (react rt p (BackendSettles i called) w))
        = (view w)\<lparr>errorMessage := explainOtpVerifyError (ErrorInstance m), busy := False\<rparr>)
   \<and> explainOtpVerifyError (ErrorInstance m) =
       (if containsIgnoringCase (js ''otp'') m \<or> containsIgnoringCase (js ''token'') m
           \<or> containsIgnoringCase (js ''invalid'') m \<or> containsIgnoringCase (js ''expired'') m
        then js ''Wrong code'' else m)"
  using explainOtpVerifyError_Error [of m]
  by (auto simp: react_def goNext_def submit_def perform_def start_def commit_same_deps
      catchMessage_def Let_def)

theorem submission_failure_witness:
  "(\<not> busy (view atPassword) \<and> step (view atPassword) = PASSWORD
      \<and> passwordIsValid (view atPassword)
      \<and> snd (react asciiRuntime passwordFlow CallGoNext atPassword)
          = [Call (SignIn (js ''a@x.com'') (js ''hunter22''))])
   \<and> (authCall (failed (js ''Invalid login credentials''))
        = Rejected (ErrorInstance (js ''Invalid login credentials''))
      \<and> view (fst (react asciiRuntime passwordFlow
                 (BackendSettles 0 (failed (js ''Invalid login credentials'')))
                 (fst (react asciiRuntime passwordFlow CallGoNext atPassword))))
          = (view atPassword)\<lparr>errorMessage := js ''Invalid login credentials''\<rparr>)
   \<and> (\<not> busy (view atCode) \<and> step (view atCode) = OTP \<and> otpIsValid (view atCode)
      \<and> snd (react asciiRuntime codeFlow CallGoNext atCode)
          = [Call (VerifyOtp (js ''a@x.com'') (js ''123456''))])
   \<and> (authCall (failed (js ''Network request failed''))
        = Rejected (ErrorInstance (js ''Network request failed''))
      \<and> view (fst (react asciiRuntime codeFlow
                 (BackendSettles 0 (failed (js ''Network request failed'')))
                 (fst (react asciiRuntime codeFlow CallGoNext atCode))))
          = (view atCode)\<lparr>errorMessage := js ''Network request failed''\<rparr>)"
proof -
  have vp: "view atPassword =
      blank\<lparr>step := PASSWORD, email := js ''a@x.com'', password := js ''hunter22'',
            emailCheckStatus := Ready, emailExists := Some True\<rparr>"
    by code_simp
  have vc: "view atCode =
      blank\<lparr>step := OTP, email := js ''a@x.com'', otpCode := js ''123456'',
            otpResendSeconds := 30\<rparr>"
    by code_simp
  have idle: "awaiting atPassword = []" "awaiting atCode = []"
    by code_simp+
  have norm: "toLowerCase asciiRuntime (normalizeEmail (js ''a@x.com'')) = js ''a@x.com''"
    "trim (js ''123456'') = js ''123456''" "validateOtpCodeV1 (js ''123456'')"
    "validatePasswordV1 (js ''hunter22'')"
    by code_simp+
  have pw: "\<not> busy (view atPassword)" "step (view atPassword) = PASSWORD"
    "passwordIsValid (view atPassword)" "\<not> isNewUser (view atPassword)"
    "toLowerCase asciiRuntime (normalizeEmail (email (view atPassword))) = js ''a@x.com''"
    "password (view atPassword) = js ''hunter22''" "awaiting atPassword = []"
    "errorMessage (view atPassword) = []"
    by (simp_all add: vp idle norm blank_def initialState_def passwordIsValid_def isNewUser_def)
  have code: "\<not> busy (view atCode)" "step (view atCode) = OTP" "otpIsValid (view atCode)"
    "toLowerCase asciiRuntime (normalizeEmail (email (view atCode))) = js ''a@x.com''"
    "trim (otpCode (view atCode)) = js ''123456''" "awaiting atCode = []"
    "errorMessage (view atCode) = []"
    by (simp_all add: vc idle norm blank_def initialState_def otpIsValid_def)
  have rejected:
    "authCall (failed (js ''Invalid login credentials''))
       = Rejected (ErrorInstance (js ''Invalid login credentials''))"
    "authCall (failed (js ''Network request failed''))
       = Rejected (ErrorInstance (js ''Network request failed''))"
    "explainOtpVerifyError (ErrorInstance (js ''Network request failed''))
       = js ''Network request failed''"
    by code_simp+
  have begin_pw: "react asciiRuntime passwordFlow CallGoNext atPassword =
      (atPassword\<lparr>view := (view atPassword)\<lparr>errorMessage := [], busy := True\<rparr>,
                    awaiting := [AfterSubmit]\<rparr>,
       [Call (SignIn (js ''a@x.com'') (js ''hunter22''))])"
    using submission_failure [of atPassword CallGoNext asciiRuntime passwordFlow] pw
    by simp
  have begin_code: "react asciiRuntime codeFlow CallGoNext atCode =
      (atCode\<lparr>view := (view atCode)\<lparr>errorMessage := [], busy := True\<rparr>,
                awaiting := [AfterVerifyOtp]\<rparr>,
       [Call (VerifyOtp (js ''a@x.com'') (js ''123456''))])"
    using submission_failure [of atCode _ asciiRuntime codeFlow] code
    by simp
  have end_pw: "view (fst (react asciiRuntime passwordFlow
                 (BackendSettles 0 (failed (js ''Invalid login credentials'')))
                 (fst (react asciiRuntime passwordFlow CallGoNext atPassword))))
          = (view atPassword)\<lparr>errorMessage := js ''Invalid login credentials''\<rparr>"
    using submission_failure
      [of "fst (react asciiRuntime passwordFlow CallGoNext atPassword)" _ asciiRuntime
        passwordFlow 0 "failed (js ''Invalid login credentials'')"
        "js ''Invalid login credentials''"] rejected pw(1)
    by (simp add: begin_pw)
  have end_code: "view (fst (react asciiRuntime codeFlow
                 (BackendSettles 0 (failed (js ''Network request failed'')))
                 (fst (react asciiRuntime codeFlow CallGoNext atCode))))
          = (view atCode)\<lparr>errorMessage := js ''Network request failed''\<rparr>"
    using submission_failure
      [of "fst (react asciiRuntime codeFlow CallGoNext atCode)" _ asciiRuntime
        codeFlow 0 "failed (js ''Network request failed'')"
        "js ''Network request failed''"] rejected code(1)
    by (simp add: begin_code)
  show ?thesis
    using pw code rejected begin_pw begin_code end_pw end_code by simp
qed

text \<open>
  The code flow at the code step: \<open>verifyOtp\<close> rejects with the adapter's message
  \<open>Invalid OTP\<close>, and the message shown is \<open>Wrong code\<close>.
\<close>

theorem verify_failure_counterexample:
  "authCall (failed (js ''Invalid OTP'')) = Rejected (ErrorInstance (js ''Invalid OTP''))
   \<and> step (view atCode) = OTP
   \<and> snd (react asciiRuntime codeFlow CallGoNext atCode)
       = [Call (VerifyOtp (js ''a@x.com'') (js ''123456''))]
   \<and> errorMessage (view (fst (run asciiRuntime codeFlow
        [CallGoNext, BackendSettles 0 (failed (js ''Invalid OTP''))] atCode)))
       = js ''Wrong code''
   \<and> js ''Wrong code'' \<noteq> js ''Invalid OTP''"
  by code_simp

subsection \<open>The retry loop of the existence check\<close>

lemma react_DebounceFires:
  "emailCheckDebounce w = Some n \<Longrightarrow>
   react rt p DebounceFires w =
     (w\<lparr>emailCheckRequestId := emailCheckRequestId w + 1,
        emailCheckDebounce := None,
        view := (view w)\<lparr>emailCheckStatus := Checking, errorMessage := []\<rparr>,
        checks := (checks w)(emailCheckRequestId w + 1 \<mapsto>
                     \<lparr>attempt = 0, normalized = n, sleeping = False\<rparr>)\<rparr>,
      [Call (CheckEmailExists n)])"
  by (simp add: react_def debounceFired_def commit_same_deps Let_def)

lemma react_attempt_fails:
  "checks w r = Some t \<Longrightarrow> \<not> sleeping t \<Longrightarrow> checkEmailExists invoked = Rejected e \<Longrightarrow>
   react rt p (InvokeSettles r invoked rnd) w =
     (w\<lparr>checks := (checks w)(r \<mapsto> t\<lparr>sleeping := True\<rparr>)\<rparr>,
      [Sleep (backoffDelay (attempt t) rnd)])"
  by (simp add: react_def attemptSettled_def commit_same_deps)

lemma react_backoff_retry:
  "checks w r = Some t \<Longrightarrow> sleeping t \<Longrightarrow> r = emailCheckRequestId w \<Longrightarrow>
   attempt t + 1 < maxAttempts \<Longrightarrow>
   react rt p (BackoffEnds r) w =
     (w\<lparr>view := (view w)\<lparr>emailCheckStatus := Checking\<rparr>,
        checks := (checks w)(r \<mapsto> t\<lparr>attempt := attempt t + 1, sleeping := False\<rparr>)\<rparr>,
      [Call (CheckEmailExists (normalized t))])"
  by (simp add: react_def backoffEnded_def commit_same_deps Let_def)

lemma react_backoff_give_up:
  "checks w r = Some t \<Longrightarrow> sleeping t \<Longrightarrow> r = emailCheckRequestId w \<Longrightarrow>
   \<not> attempt t + 1 < maxAttempts \<Longrightarrow>
   react rt p (BackoffEnds r) w =
     (w\<lparr>view := (view w)\<lparr>emailCheckStatus := Idle, emailExists := None\<rparr>,
        checks := (checks w)(r := None)\<rparr>, [])"
  by (simp add: react_def backoffEnded_def commit_same_deps Let_def)

lemma jitter_below_120:
  assumes "0 \<le> rnd" and "rnd < 1"
  shows "jitter rnd < 120"
proof -
  have "rnd * 120 < 120"
    using assms by simp
  then have "\<lfloor>rnd * 120\<rfloor> < 120"
    by (simp add: floor_less_iff)
  then show ?thesis
    unfolding jitter_def by linarith
qed

text \<open>
  C4: once the debounce timer fires, if each of the four attempts fails, the controller
  calls \<open>checkEmailExists\<close> four times with the address the timer held, sleeps
  \<open>350 * k + jitter\<close> ms after the \<open>k\<close>-th failure (\<open>jitter\<close> being
  \<open>floor(random * 120)\<close>), and when the sleep after the fourth failure ends, with
  nothing else happening in between, the status is Idle, \<open>emailExists\<close> is null, the
  error message is empty and the check has ended.
\<close>

theorem retries_exhausted:
  assumes armed: "emailCheckDebounce w = Some n"
    and fa: "checkEmailExists ra = Rejected ea"
    and fb: "checkEmailExists rb = Rejected eb"
    and fc: "checkEmailExists rc = Rejected ec"
    and fd: "checkEmailExists rd = Rejected ed"
    and r: "r = emailCheckRequestId w + 1"
    and final: "final = run rt p
       [DebounceFires,
        InvokeSettles r ra ua, BackoffEnds r,
        InvokeSettles r rb ub, BackoffEnds r,
        InvokeSettles r rc uc, BackoffEnds r,
        InvokeSettles r rd ud, BackoffEnds r] w"
  shows "snd final =
       [Call (CheckEmailExists n), Sleep (350 * 1 + jitter ua),
        Call (CheckEmailExists n), Sleep (350 * 2 + jitter ub),
        Call (CheckEmailExists n), Sleep (350 * 3 + jitter uc),
        Call (CheckEmailExists n), Sleep (350 * 4 + jitter ud)]
     \<and> emailCheckStatus (view (fst final)) = Idle
     \<and> emailExists (view (fst final)) = None
     \<and> errorMessage (view (fst final)) = []
     \<and> checks (fst final) r = None"
proof -
  define v where "v = (view w)\<lparr>emailCheckStatus := Checking, errorMessage := []\<rparr>"
  define task where "task a z = \<lparr>attempt = a, normalized = n, sleeping = z\<rparr>" for a z
  define stage where
    "stage a z = w\<lparr>emailCheckRequestId := r, emailCheckDebounce := None, view := v,
                    checks := (checks w)(r \<mapsto> task a z)\<rparr>" for a z
  have chk: "checks (stage a z) r = Some (task a z)" "emailCheckRequestId (stage a z) = r"
    "view (stage a z) = v" for a z
    by (simp_all add: stage_def)
  have fire: "react rt p DebounceFires w = (stage 0 False, [Call (CheckEmailExists n)])"
    using react_DebounceFires [OF armed, of rt p] by (simp add: stage_def v_def task_def r)
  have fail: "react rt p (InvokeSettles r i u) (stage a False)
      = (stage a True, [Sleep (backoffDelay a u)])"
    if "checkEmailExists i = Rejected e" for i u a e
    using react_attempt_fails [OF chk(1) _ that, of a False rt p u]
    by (simp add: task_def stage_def)
  have retry: "react rt p (BackoffEnds r) (stage a True)
      = (stage (a + 1) False, [Call (CheckEmailExists n)])" if "a + 1 < maxAttempts" for a
    using react_backoff_retry [OF chk(1), of a True rt p] that
    by (simp add: task_def stage_def v_def)
  have stop: "react rt p (BackoffEnds r) (stage 3 True)
      = ((stage 3 True)\<lparr>view := v\<lparr>emailCheckStatus := Idle, emailExists := None\<rparr>,
                         checks := (checks (stage 3 True))(r := None)\<rparr>, [])"
    using react_backoff_give_up [OF chk(1), of 3 True rt p]
    by (simp add: task_def chk maxAttempts_def)
  have r1: "react rt p (BackoffEnds r) (stage 0 True) = (stage 1 False, [Call (CheckEmailExists n)])"
    using retry [of 0] by (simp add: maxAttempts_def)
  have r2: "react rt p (BackoffEnds r) (stage 1 True) = (stage 2 False, [Call (CheckEmailExists n)])"
    using retry [of 1] by (simp add: maxAttempts_def numeral_2_eq_2)
  have r3: "react rt p (BackoffEnds r) (stage 2 True) = (stage 3 False, [Call (CheckEmailExists n)])"
    using retry [of 2] by (simp add: maxAttempts_def numeral_2_eq_2 numeral_3_eq_3)
  have "final =
      ((stage 3 True)\<lparr>view := v\<lparr>emailCheckStatus := Idle, emailExists := None\<rparr>,
                         checks := (checks (stage 3 True))(r := None)\<rparr>,
       [Call (CheckEmailExists n), Sleep (backoffDelay 0 ua),
        Call (CheckEmailExists n), Sleep (backoffDelay 1 ub),
        Call (CheckEmailExists n), Sleep (backoffDelay 2 uc),
        Call (CheckEmailExists n), Sleep (backoffDelay 3 ud)])"
    unfolding final
    by (simp add: fire fail [OF fa] fail [OF fb] fail [OF fc] fail [OF fd] r1 r2 r3 stop
        del: One_nat_def)
  then show ?thesis
    by (simp add: backoffDelay_def baseDelayMs_def v_def)
qed

theorem retries_exhausted_witness:
  "emailCheckDebounce typedFirst = Some (js ''a@x.com'')
   \<and> checkEmailExists (failed (js ''down'')) = Rejected (ErrorInstance (js ''down''))
   \<and> snd (run asciiRuntime passwordFlow
        [DebounceFires,
         InvokeSettles 1 (failed (js ''down'')) (1 / 2), BackoffEnds 1,
         InvokeSettles 1 (failed (js ''down'')) 0, BackoffEnds 1,
         InvokeSettles 1 (failed (js ''down'')) (1 / 4), BackoffEnds 1,
         InvokeSettles 1 (failed (js ''down'')) (3 / 4), BackoffEnds 1] typedFirst)
       = [Call (CheckEmailExists (js ''a@x.com'')), Sleep 410,
          Call (CheckEmailExists (js ''a@x.com'')), Sleep 700,
          Call (CheckEmailExists (js ''a@x.com'')), Sleep 1080,
          Call (CheckEmailExists (js ''a@x.com'')), Sleep 1490]
   \<and> emailCheckStatus (view (fst (run asciiRuntime passwordFlow
        [DebounceFires,
         InvokeSettles 1 (failed (js ''down'')) (1 / 2), BackoffEnds 1,
         InvokeSettles 1 (failed (js ''down'')) 0, BackoffEnds 1,
         InvokeSettles 1 (failed (js ''down'')) (1 / 4), BackoffEnds 1,
         InvokeSettles 1 (failed (js ''down'')) (3 / 4), BackoffEnds 1] typedFirst))) = Idle
   \<and> emailExists (view (fst (run asciiRuntime passwordFlow
        [DebounceFires,
         InvokeSettles 1 (failed (js ''down'')) (1 / 2), BackoffEnds 1,
         InvokeSettles 1 (failed (js ''down'')) 0, BackoffEnds 1,
         InvokeSettles 1 (failed (js ''down'')) (1 / 4), BackoffEnds 1,
         InvokeSettles 1 (failed (js ''down'')) (3 / 4), BackoffEnds 1] typedFirst))) = None"
proof -
  have armed: "emailCheckDebounce typedFirst = Some (js ''a@x.com'')"
    by code_simp
  have down: "checkEmailExists (failed (js ''down'')) = Rejected (ErrorInstance (js ''down''))"
    by code_simp
  have first: "emailCheckRequestId typedFirst = 0"
    by code_simp
  have draws: "jitter (1 / 2) = 60" "jitter 0 = 0" "jitter (1 / 4) = 30" "jitter (3 / 4) = 90"
    by (simp_all add: jitter_def)
  show ?thesis
    using retries_exhausted [OF armed down down down down refl refl,
        where rt = asciiRuntime and p = passwordFlow
          and ua = "1 / 2" and ub = 0 and uc = "1 / 4" and ud = "3 / 4"]
      armed down
    by (simp add: first draws)
qed

subsection \<open>Addresses passed to the providers\<close>

lemma perform_fields:
  "emailCheckDebounce (fst (perform w res)) = emailCheckDebounce w"
  "checks (fst (perform w res)) = checks w"
  by (auto simp: perform_def split: prod.splits option.splits)

lemma dispatch_debounce:
  "emailCheckDebounce (fst (dispatch rt p ev w)) = None
   \<or> emailCheckDebounce (fst (dispatch rt p ev w)) = emailCheckDebounce w"
  by (cases ev)
    (auto simp: perform_fields debounceFired_def attemptSettled_def backoffEnded_def Let_def
      split: option.splits settled.splits)

lemma dispatch_checks:
  "checks (fst (dispatch rt p ev w)) r = Some t \<Longrightarrow>
   (\<exists>t0. checks w r = Some t0 \<and> normalized t0 = normalized t)
   \<or> (ev = DebounceFires \<and> emailCheckDebounce w = Some (normalized t))"
  by (cases ev)
    (auto simp: perform_fields debounceFired_def attemptSettled_def backoffEnded_def Let_def
      split: option.splits settled.splits if_splits)

lemma dispatch_calls:
  "Call c \<in> set (snd (dispatch rt p ev w)) \<Longrightarrow> callEmail c = Some x \<Longrightarrow>
   x = toLowerCase rt (normalizeEmail (email (view w)))
   \<or> (ev = DebounceFires \<and> emailCheckDebounce w = Some x)
   \<or> (\<exists>r t. ev = BackoffEnds r \<and> checks w r = Some t \<and> normalized t = x)"
  by (cases ev)
    (auto simp: perform_def goNext_def submit_def resendOtp_def debounceFired_def
      attemptSettled_def backoffEnded_def Let_def
      split: option.splits settled.splits if_splits)

lemma runEffects_fields:
  "checks (runEffects rt mode a b w) = checks w"
  "email (view (runEffects rt mode a b w)) = email (view w)"
  by (auto simp: runEffects_def autoCheckEffect_def clearOtpErrorEffect_def resetCheckEffect_def
      Let_def)

lemma runEffects_debounce:
  "emailCheckDebounce (runEffects rt mode a False w) = emailCheckDebounce w"
  "debounceCurrent rt (runEffects rt mode a True w)"
  by (auto simp: runEffects_def autoCheckEffect_def clearOtpErrorEffect_def resetCheckEffect_def
      debounceCurrent_def Let_def)

lemma react_fields:
  "checks (fst (react rt p ev w)) = checks (fst (dispatch rt p ev w))"
  "snd (react rt p ev w) = snd (dispatch rt p ev w)"
  "email (view (fst (react rt p ev w))) = email (view (fst (dispatch rt p ev w)))"
  by (auto simp: react_def commit_def runEffects_fields split: prod.splits)

lemma react_debounceCurrent:
  assumes "debounceCurrent rt w"
  shows "debounceCurrent rt (fst (react rt p ev w))"
proof (cases "email (view w) \<noteq> email (view (fst (dispatch rt p ev w)))
              \<or> step (view w) \<noteq> step (view (fst (dispatch rt p ev w)))")
  case True
  then show ?thesis
    by (auto simp: react_def commit_def runEffects_debounce(2) split: prod.splits)
next
  case False
  then have "emailCheckDebounce (fst (react rt p ev w))
      = emailCheckDebounce (fst (dispatch rt p ev w))"
    by (auto simp: react_def commit_def runEffects_debounce(1) split: prod.splits)
  moreover have "email (view (fst (react rt p ev w))) = email (view w)"
    using False by (simp add: react_fields)
  ultimately show ?thesis
    using assms dispatch_debounce [of rt p ev w] by (auto simp: debounceCurrent_def)
qed

lemma run_snoc:
  "run rt p (evs @ [ev]) w =
     (case run rt p evs w of
        (w1, out1) \<Rightarrow> (case react rt p ev w1 of (w2, out2) \<Rightarrow> (w2, out1 @ out2)))"
  by (induction evs arbitrary: w) (auto split: prod.splits)

lemma fst_run_snoc:
  "fst (run rt p (evs @ [ev]) w) = fst (react rt p ev (fst (run rt p evs w)))"
  by (simp add: run_snoc case_prod_beta)

lemma mount_debounceCurrent: "debounceCurrent rt (mount rt p)"
  by (simp add: mount_def runEffects_debounce(2))

lemma run_debounceCurrent: "debounceCurrent rt (fst (run rt p evs (mount rt p)))"
proof (induction evs rule: rev_induct)
  case Nil
  then show ?case by (simp add: mount_debounceCurrent)
next
  case (snoc ev evs)
  then show ?case
    by (simp add: fst_run_snoc react_debounceCurrent)
qed

lemma mount_checks: "checks (mount rt p) = Map.empty"
  by (simp add: mount_def runEffects_fields)

lemma run_checks:
  "checks (fst (run rt p evs (mount rt p))) r = Some t \<Longrightarrow>
   \<exists>k\<le>length evs. normalized t = toLowerCase rt (normalizeEmail (emailAt rt p evs k))"
proof (induction evs arbitrary: t rule: rev_induct)
  case Nil
  then show ?case by (simp add: mount_checks)
next
  case (snoc ev evs)
  define w where "w = fst (run rt p evs (mount rt p))"
  have now: "fst (run rt p (evs @ [ev]) (mount rt p)) = fst (react rt p ev w)"
    by (simp add: fst_run_snoc w_def)
  have older: "emailAt rt p (evs @ [ev]) k = emailAt rt p evs k" if "k \<le> length evs" for k
    using that by (simp add: emailAt_def)
  from snoc.prems have "checks (fst (dispatch rt p ev w)) r = Some t"
    by (simp add: now react_fields)
  then consider t0 where "checks w r = Some t0" "normalized t0 = normalized t"
    | "emailCheckDebounce w = Some (normalized t)"
    using dispatch_checks by blast
  then show ?case
  proof cases
    case 1
    with snoc.IH [of t0] obtain k where "k \<le> length evs"
      "normalized t = toLowerCase rt (normalizeEmail (emailAt rt p evs k))"
      by (auto simp: w_def)
    then show ?thesis using older [of k] by (intro exI [of _ k]) simp
  next
    case 2
    then have "normalized t = toLowerCase rt (normalizeEmail (email (view w)))"
      using run_debounceCurrent [of rt p evs] by (simp add: debounceCurrent_def w_def)
    moreover have "email (view w) = emailAt rt p (evs @ [ev]) (length evs)"
      by (simp add: emailAt_def w_def)
    ultimately show ?thesis by (intro exI [of _ "length evs"]) simp
  qed
qed

text \<open>
  C10: in every state \<open>w\<close> that a run of events reaches from the mount, every provider call
  that an event makes and that carries an address carries the trimmed, lower-cased form of
  a value that the email field had during the run. For every event but the end of a
  backoff sleep (the actions \<open>goNext\<close>, \<open>submit\<close> and \<open>resendOtp\<close>, and the first
  attempt of a check) it is the trimmed, lower-cased form of the current value of the
  field; a retry of a check repeats the address of its first attempt.
\<close>

theorem provider_receives_normalized_email:
  assumes "w = fst (run rt p evs (mount rt p))"
    and "Call c \<in> set (snd (react rt p ev w))"
    and "callEmail c = Some x"
  shows "(\<exists>k\<le>length evs. x = toLowerCase rt (trim (emailAt rt p evs k)))
     \<and> ((\<forall>r. ev \<noteq> BackoffEnds r) \<longrightarrow> x = toLowerCase rt (trim (email (view w))))"
proof -
  have cur: "email (view w) = emailAt rt p evs (length evs)"
    by (simp add: emailAt_def assms(1))
  from assms(2,3) consider "x = toLowerCase rt (normalizeEmail (email (view w)))"
    | "ev = DebounceFires" "emailCheckDebounce w = Some x"
    | r t where "ev = BackoffEnds r" "checks w r = Some t" "normalized t = x"
    using dispatch_calls [of c rt p ev w x] by (auto simp: react_fields)
  then show ?thesis
  proof cases
    case 1
    then show ?thesis using cur by (auto simp: normalizeEmail_def)
  next
    case 2
    then have "x = toLowerCase rt (normalizeEmail (email (view w)))"
      using run_debounceCurrent [of rt p evs] by (simp add: debounceCurrent_def assms(1))
    then show ?thesis using cur by (auto simp: normalizeEmail_def)
  next
    case 3
    then show ?thesis
      using run_checks [of rt p evs r t] by (auto simp: assms(1) normalizeEmail_def)
  qed
qed

theorem provider_receives_normalized_email_witness:
  "Call (CheckEmailExists (js ''a@x.com''))
     \<in> set (snd (react asciiRuntime passwordFlow DebounceFires typedLoud))
   \<and> callEmail (CheckEmailExists (js ''a@x.com'')) = Some (js ''a@x.com'')
   \<and> email (view typedLoud) = js '' A@X.com ''
   \<and> js ''a@x.com'' = toLowerCase asciiRuntime (trim (email (view typedLoud)))
   \<and> js ''a@x.com'' \<noteq> email (view typedLoud)"
proof -
  have called: "Call (CheckEmailExists (js ''a@x.com''))
      \<in> set (snd (react asciiRuntime passwordFlow DebounceFires typedLoud))"
    by code_simp
  have typed: "email (view typedLoud) = js '' A@X.com ''"
    by code_simp
  have differs: "js ''a@x.com'' \<noteq> js '' A@X.com ''"
    by code_simp
  have "js ''a@x.com'' = toLowerCase asciiRuntime (trim (email (view typedLoud)))"
    using provider_receives_normalized_email
      [OF typedLoud_def called, of "js ''a@x.com''"]
    by simp
  then show ?thesis
    using called typed differs by simp
qed

subsection \<open>Results of superseded checks\<close>

text \<open>What the \<open>reqId\<close> test achieves: a run whose \<open>reqId\<close> is no longer the current one
  changes nothing in the state cells.\<close>

lemma outdated_reqId_dropped:
  assumes "r \<noteq> emailCheckRequestId w"
  shows "view (fst (react rt p (InvokeSettles r invoked rnd) w)) = view w"
    and "view (fst (react rt p (BackoffEnds r) w)) = view w"
  using assms
  by (auto simp: react_def attemptSettled_def backoffEnded_def commit_same_deps
      split: option.splits settled.splits)

text \<open>
  C1 fails on the code. In the password flow the user types \<open>a@x.com\<close>, the debounce
  timer fires and the check of \<open>a@x.com\<close> goes in flight (\<open>reqId\<close> 1), and the user
  replaces the address by \<open>b@x.com\<close>: the state is reset to Idle and null, and the timer
  is armed for \<open>b@x.com\<close>, but \<open>emailCheckRequestId\<close> is still 1, since it is advanced only
  when a timer fires. When the check of \<open>a@x.com\<close> now resolves \<open>true\<close>, its result is
  applied: the state shows Ready and \<open>emailExists = true\<close> for \<open>b@x.com\<close>.
\<close>

theorem stale_result_applied:
  "snd (run asciiRuntime passwordFlow [DebounceFires, SetEmail (js ''b@x.com'')] typedFirst)
     = [Call (CheckEmailExists (js ''a@x.com''))]
   \<and> email (view editedInFlight) = js ''b@x.com''
   \<and> emailCheckStatus (view editedInFlight) = Idle
   \<and> emailExists (view editedInFlight) = None
   \<and> emailCheckRequestId editedInFlight = 1
   \<and> emailCheckDebounce editedInFlight = Some (js ''b@x.com'')
   \<and> email (view (fst (react asciiRuntime passwordFlow
              (InvokeSettles 1 (found True) 0) editedInFlight))) = js ''b@x.com''
   \<and> emailCheckStatus (view (fst (react asciiRuntime passwordFlow
              (InvokeSettles 1 (found True) 0) editedInFlight))) = Ready
   \<and> emailExists (view (fst (react asciiRuntime passwordFlow
              (InvokeSettles 1 (found True) 0) editedInFlight))) = Some True"
  by code_simp

text \<open>
  C9 fails on the code, through the same defect. After the result of the superseded check
  has been applied as above, the debounce timer of \<open>b@x.com\<close> fires and sets the status
  to Checking without touching \<open>emailExists\<close>: the state shows \<open>emailExists = true\<close>
  with status Checking.
\<close>

theorem exists_without_ready:
  "emailExists (view (fst (run asciiRuntime passwordFlow
       [InvokeSettles 1 (found True) 0, DebounceFires] editedInFlight))) = Some True
   \<and> emailCheckStatus (view (fst (run asciiRuntime passwordFlow
       [InvokeSettles 1 (found True) 0, DebounceFires] editedInFlight))) = Checking"
  by code_simp

text \<open>The operations that the invariant is stated for do keep it.\<close>

lemma listed_operations_keep_invariant:
  "existsOnlyWhenReady (initialState p)"
  "existsOnlyWhenReady s \<Longrightarrow> existsOnlyWhenReady (resetCheckEffect r s)"
  "existsOnlyWhenReady (reset p s)"
  "existsOnlyWhenReady s \<Longrightarrow> existsOnlyWhenReady (goBack p s)"
  "existsOnlyWhenReady (beginEditEmail s)"
  "existsOnlyWhenReady (view w) \<Longrightarrow>
     existsOnlyWhenReady (view (fst (attemptSettled rid t invoked rnd w)))"
  "existsOnlyWhenReady (view w) \<Longrightarrow> \<not> attempt t + 1 < maxAttempts \<Longrightarrow>
     existsOnlyWhenReady (view (fst (backoffEnded rid t w)))"
  by (auto simp: existsOnlyWhenReady_def initialState_def resetCheckEffect_def reset_def
      goBack_def beginEditEmail_def attemptSettled_def backoffEnded_def Let_def
      split: settled.splits)

end
